theory Spec2Isabelle
  imports Main "HOL-Library.AList" "HOL-Library.Sublist" "HOL-Library.Char_ord"
    "HOL-Library.List_Lexorder"
begin

section \<open>Paths: the functions of path/filepath used by the store\<close>

text \<open>
  The store (main.go) builds every path with \<open>filepath.Join\<close> and \<open>filepath.Clean\<close> and
  appends the suffixes \<open>.json\<close> and \<open>.tmp\<close> by string concatenation. Paths are therefore
  modelled as strings (byte lists), for a Unix system whose separator is the slash.
\<close>

definition Separator :: char where
  "Separator = CHR ''/''"

text \<open>Splitting at every separator; the result is never empty (\<open>split_path '''' = ['''']\<close>).\<close>

fun split_path :: "string \<Rightarrow> string list" where
  "split_path [] = [[]]"
| "split_path (c # s) =
     (if c = Separator then [] # split_path s
      else (case split_path s of [] \<Rightarrow> [[c]] | e # es \<Rightarrow> (c # e) # es))"

text \<open>\<open>strings.Join(elems, "/")\<close>.\<close>

fun strings_Join :: "string list \<Rightarrow> string" where
  "strings_Join [] = []"
| "strings_Join [e] = e"
| "strings_Join (e # es) = e @ Separator # strings_Join es"

text \<open>
  One step of \<open>filepath.Clean\<close> on the element \<open>e\<close>, with \<open>out\<close> the elements kept so far:
  empty elements and \<open>.\<close> are dropped; \<open>..\<close> removes the preceding real element, is
  dropped at the root of a rooted path, and is kept at the front of a relative path.
\<close>

definition clean_step :: "bool \<Rightarrow> string list \<Rightarrow> string \<Rightarrow> string list" where
  "clean_step rooted out e =
     (if e = [] \<or> e = ''.'' then out
      else if e = ''..'' then
        (if out \<noteq> [] \<and> last out \<noteq> ''..'' then butlast out
         else if rooted then out
         else out @ [''..''])
      else out @ [e])"

definition filepath_Clean :: "string \<Rightarrow> string" where
  "filepath_Clean path =
     (if path = [] then ''.''
      else
        let rooted = (hd path = Separator);
            out = foldl (clean_step rooted) [] (split_path path)
        in if rooted then Separator # strings_Join out
           else if out = [] then ''.''
           else strings_Join out)"

text \<open>\<open>filepath.Join\<close>: leading empty elements are ignored, the rest is joined and cleaned.\<close>

definition filepath_Join :: "string list \<Rightarrow> string" where
  "filepath_Join elem =
     (case dropWhile (\<lambda>e. e = []) elem of
        [] \<Rightarrow> []
      | es \<Rightarrow> filepath_Clean (strings_Join es))"

section \<open>The file system under the store\<close>

text \<open>
  The operating system is not part of the repository; it is modelled as a deterministic
  in-memory tree without symbolic links. A node is addressed by the list of names from
  the root. A directory carries its search permission (the only permission that is
  modelled: reading and writing are always granted), and \<open>free_space\<close> bounds the bytes a
  single write can store, so that a write can fail half way.
\<close>

datatype errno = ENOENT | ENOTDIR | EACCES | EISDIR | EEXIST | ENOTEMPTY | EINVAL | EBUSY | ENOSPC

datatype error =
    Errorf string
  | PathError string string errno
  | LinkError string string string errno
  | CodecError string

datatype node = File string | Dir bool

datatype FileMode = ModeDir | ModeRegular

record filesystem =
  nodes :: "(string list \<times> node) list"
  cwd :: "string list"
  free_space :: nat

definition lookup :: "filesystem \<Rightarrow> string list \<Rightarrow> node option" where
  "lookup fs p = map_of (nodes fs) p"

definition store :: "string list \<Rightarrow> node \<Rightarrow> filesystem \<Rightarrow> filesystem" where
  "store p n fs = fs\<lparr>nodes := AList.update p n (nodes fs)\<rparr>"

definition discard :: "(string list \<Rightarrow> bool) \<Rightarrow> filesystem \<Rightarrow> filesystem" where
  "discard P fs = fs\<lparr>nodes := filter (\<lambda>(k, n). \<not> P k) (nodes fs)\<rparr>"

definition children :: "filesystem \<Rightarrow> string list \<Rightarrow> string list" where
  "children fs p = map (\<lambda>(k, n). last k) (filter (\<lambda>(k, n). k \<noteq> [] \<and> butlast k = p) (nodes fs))"

text \<open>
  Path resolution, one element at a time from the directory \<open>cur\<close>: the current node must
  be a directory, and looking a name up in it (also \<open>.\<close> and \<open>..\<close>) needs its search
  permission. The last position reached is returned whether or not a node exists there.
\<close>

fun walk :: "filesystem \<Rightarrow> string list \<Rightarrow> string list \<Rightarrow> errno + string list" where
  "walk fs cur [] = Inr cur"
| "walk fs cur (c # cs) =
     (case lookup fs cur of
        None \<Rightarrow> Inl ENOENT
      | Some (File b) \<Rightarrow> Inl ENOTDIR
      | Some (Dir x) \<Rightarrow>
          if c = [] then walk fs cur cs
          else if \<not> x then Inl EACCES
          else if c = ''.'' then walk fs cur cs
          else if c = ''..'' then walk fs (butlast cur) cs
          else walk fs (cur @ [c]) cs)"

definition resolve :: "filesystem \<Rightarrow> string \<Rightarrow> errno + string list" where
  "resolve fs name =
     (if name = [] then Inl ENOENT
      else walk fs (if hd name = Separator then [] else cwd fs) (split_path name))"

definition os_Stat :: "filesystem \<Rightarrow> string \<Rightarrow> error + FileMode" where
  "os_Stat fs name =
     (case resolve fs name of
        Inl e \<Rightarrow> Inl (PathError ''stat'' name e)
      | Inr p \<Rightarrow>
          (case lookup fs p of
             None \<Rightarrow> Inl (PathError ''stat'' name ENOENT)
           | Some (File b) \<Rightarrow> Inr ModeRegular
           | Some (Dir x) \<Rightarrow> Inr ModeDir))"

fun os_IsNotExist :: "error \<Rightarrow> bool" where
  "os_IsNotExist (PathError opn name e) = (e = ENOENT)"
| "os_IsNotExist (LinkError opn old new e) = (e = ENOENT)"
| "os_IsNotExist err = False"

text \<open>
  \<open>os.Mkdir\<close> creates one directory. As the system call does, it accepts separators
  after the name of the directory to create.
\<close>

definition trim_separators :: "string \<Rightarrow> string" where
  "trim_separators name =
     (let t = rev (dropWhile (\<lambda>c. c = Separator) (rev name))
      in if t = [] \<and> name \<noteq> [] then [Separator] else t)"

definition os_Mkdir :: "filesystem \<Rightarrow> string \<Rightarrow> error option \<times> filesystem" where
  "os_Mkdir fs name =
     (case resolve fs (trim_separators name) of
        Inl e \<Rightarrow> (Some (PathError ''mkdir'' name e), fs)
      | Inr p \<Rightarrow>
          (case lookup fs p of
             Some n \<Rightarrow> (Some (PathError ''mkdir'' name EEXIST), fs)
           | None \<Rightarrow> (None, store p (Dir True) fs)))"

text \<open>
  \<open>os.MkdirAll\<close> recurses on the text of the path. With \<open>j\<close> the index at which the
  last element starts (separators after it skipped), the parent is \<open>path[:j-1]\<close>, the
  text before the separator in front of the last element; it is made first when
  \<open>j > 1\<close>. So every missing directory on the way is created, the outermost first.
\<close>

definition element_start :: "string \<Rightarrow> nat" where
  "element_start path =
     length (dropWhile (\<lambda>c. c \<noteq> Separator) (dropWhile (\<lambda>c. c = Separator) (rev path)))"

function os_MkdirAll :: "filesystem \<Rightarrow> string \<Rightarrow> error option \<times> filesystem" where
  "os_MkdirAll fs path =
     (case os_Stat fs path of
        Inr ModeDir \<Rightarrow> (None, fs)
      | Inr ModeRegular \<Rightarrow> (Some (PathError ''mkdir'' path ENOTDIR), fs)
      | Inl err0 \<Rightarrow>
          (case (if 1 < element_start path
                 then os_MkdirAll fs (take (element_start path - 1) path)
                 else (None, fs)) of
             (Some err, fs1) \<Rightarrow> (Some err, fs1)
           | (None, fs1) \<Rightarrow>
               (case os_Mkdir fs1 path of
                  (None, fs2) \<Rightarrow> (None, fs2)
                | (Some err, fs2) \<Rightarrow>
                    (case os_Stat fs2 path of
                       Inr ModeDir \<Rightarrow> (None, fs2)
                     | Inr ModeRegular \<Rightarrow> (Some err, fs2)
                     | Inl err1 \<Rightarrow> (Some err, fs2)))))"
  by pat_completeness auto
termination
proof (relation "measure (\<lambda>(fs, path). length path)")
  show "wf (measure (\<lambda>(fs, path). length path))" by simp
next
  fix fs :: filesystem and path :: string and err0 :: error
  assume j: "1 < element_start path"
  let ?t = "dropWhile (\<lambda>c. c = Separator) (rev path)"
  have "length ?t \<le> length path"
    using length_dropWhile_le [of "\<lambda>c. c = Separator" "rev path"] by simp
  moreover have "element_start path \<le> length ?t"
    unfolding element_start_def by (rule length_dropWhile_le)
  ultimately have "element_start path \<le> length path" by simp
  with j have "length (take (element_start path - 1) path) < length path" by simp
  then show "((fs, take (element_start path - 1) path), (fs, path))
               \<in> measure (\<lambda>(fs, path). length path)"
    by simp
qed

text \<open>
  \<open>ioutil.WriteFile\<close> creates or truncates the file and writes the data; when the data
  does not fit, the bytes that fit stay in the file and the call fails.
\<close>

definition ioutil_WriteFile :: "filesystem \<Rightarrow> string \<Rightarrow> string \<Rightarrow> error option \<times> filesystem" where
  "ioutil_WriteFile fs name data =
     (case resolve fs name of
        Inl e \<Rightarrow> (Some (PathError ''open'' name e), fs)
      | Inr p \<Rightarrow>
          (case lookup fs p of
             Some (Dir x) \<Rightarrow> (Some (PathError ''open'' name EISDIR), fs)
           | _ \<Rightarrow>
               if length data \<le> free_space fs then (None, store p (File data) fs)
               else (Some (PathError ''write'' name ENOSPC),
                     store p (File (take (free_space fs) data)) fs)))"

definition ioutil_ReadFile :: "filesystem \<Rightarrow> string \<Rightarrow> error + string" where
  "ioutil_ReadFile fs name =
     (case resolve fs name of
        Inl e \<Rightarrow> Inl (PathError ''open'' name e)
      | Inr p \<Rightarrow>
          (case lookup fs p of
             None \<Rightarrow> Inl (PathError ''open'' name ENOENT)
           | Some (Dir x) \<Rightarrow> Inl (PathError ''read'' name EISDIR)
           | Some (File b) \<Rightarrow> Inr b))"

text \<open>
  \<open>ioutil.ReadDir\<close> returns the entries sorted by name, and nothing when it fails. It
  examines every entry, which needs the search permission of the directory. The store
  uses only the names of the entries.
\<close>

definition ioutil_ReadDir :: "filesystem \<Rightarrow> string \<Rightarrow> error + string list" where
  "ioutil_ReadDir fs name =
     (case resolve fs name of
        Inl e \<Rightarrow> Inl (PathError ''open'' name e)
      | Inr p \<Rightarrow>
          (case lookup fs p of
             None \<Rightarrow> Inl (PathError ''open'' name ENOENT)
           | Some (File b) \<Rightarrow> Inl (PathError ''readdirent'' name ENOTDIR)
           | Some (Dir x) \<Rightarrow>
               if \<not> x \<and> children fs p \<noteq> [] then Inl (PathError ''lstat'' name EACCES)
               else Inr (sort (children fs p))))"

text \<open>
  \<open>locate\<close> finds the node a path names (\<open>os.Lstat\<close> without symbolic links): its place
  and the node, or the error number.
\<close>

definition locate :: "filesystem \<Rightarrow> string \<Rightarrow> errno + string list \<times> node" where
  "locate fs name =
     (case resolve fs name of
        Inl e \<Rightarrow> Inl e
      | Inr p \<Rightarrow> (case lookup fs p of None \<Rightarrow> Inl ENOENT | Some n \<Rightarrow> Inr (p, n)))"

text \<open>
  The system call \<open>rename\<close>: a failing rename changes nothing; a regular file replaces
  a regular file or takes a free name in one step; a directory moves with everything
  below it; renaming a node to itself does nothing.
\<close>

definition move_tree :: "string list \<Rightarrow> string list \<Rightarrow> filesystem \<Rightarrow> filesystem" where
  "move_tree po pn fs =
     fs\<lparr>nodes := map (\<lambda>(k, n). if prefix po k then (pn @ drop (length po) k, n) else (k, n))
                    (filter (\<lambda>(k, n). k \<noteq> pn) (nodes fs))\<rparr>"

definition syscall_Rename :: "filesystem \<Rightarrow> string \<Rightarrow> string \<Rightarrow> errno option \<times> filesystem" where
  "syscall_Rename fs old new =
     (case locate fs old of
        Inl e \<Rightarrow> (Some e, fs)
      | Inr (po, n) \<Rightarrow>
          (case resolve fs new of
             Inl e \<Rightarrow> (Some e, fs)
           | Inr pn \<Rightarrow>
               if po = pn then (None, fs)
               else
                 (case n of
                    File b \<Rightarrow>
                      (case lookup fs pn of
                         Some (Dir y) \<Rightarrow> (Some EISDIR, fs)
                       | _ \<Rightarrow> (None, store pn (File b) (discard (\<lambda>k. k = po) fs)))
                  | Dir x \<Rightarrow>
                      if po = [] then (Some EBUSY, fs)
                      else if prefix po pn then (Some EINVAL, fs)
                      else
                        (case lookup fs pn of
                           Some (File b) \<Rightarrow> (Some ENOTDIR, fs)
                         | Some (Dir y) \<Rightarrow>
                             if children fs pn \<noteq> [] then (Some ENOTEMPTY, fs)
                             else (None, move_tree po pn fs)
                         | None \<Rightarrow> (None, move_tree po pn fs)))))"

text \<open>
  \<open>os.Rename\<close> looks at the new name first: when it is a directory, the call fails with
  the error of looking at the old name, if any, and else with \<open>EEXIST\<close>, unless both
  names are different names of one node. Otherwise it makes the system call.
\<close>

definition os_Rename :: "filesystem \<Rightarrow> string \<Rightarrow> string \<Rightarrow> error option \<times> filesystem" where
  "os_Rename fs old new =
     (let call = (case syscall_Rename fs old new of
                    (Some e, fs') \<Rightarrow> (Some (LinkError ''rename'' old new e), fs')
                  | (None, fs') \<Rightarrow> (None, fs'))
      in case locate fs new of
           Inr (pn, Dir y) \<Rightarrow>
             (case locate fs old of
                Inl e \<Rightarrow> (Some (LinkError ''rename'' old new e), fs)
              | Inr (po, n) \<Rightarrow>
                  if new = old \<or> po \<noteq> pn then (Some (LinkError ''rename'' old new EEXIST), fs)
                  else call)
         | Inr (pn, File b) \<Rightarrow> call
         | Inl e \<Rightarrow> call)"

text \<open>\<open>os.Remove\<close> removes a file or an empty directory.\<close>

definition os_Remove :: "filesystem \<Rightarrow> string \<Rightarrow> error option \<times> filesystem" where
  "os_Remove fs name =
     (case resolve fs name of
        Inl e \<Rightarrow> (Some (PathError ''remove'' name e), fs)
      | Inr p \<Rightarrow>
          (case lookup fs p of
             None \<Rightarrow> (Some (PathError ''remove'' name ENOENT), fs)
           | Some (File b) \<Rightarrow> (None, discard (\<lambda>k. k = p) fs)
           | Some (Dir x) \<Rightarrow>
               if last (split_path name) = ''.'' then (Some (PathError ''remove'' name EINVAL), fs)
               else if children fs p \<noteq> [] then (Some (PathError ''remove'' name ENOTEMPTY), fs)
               else if p = [] then (Some (PathError ''remove'' name EBUSY), fs)
               else (None, discard (\<lambda>k. k = p) fs)))"

text \<open>
  \<open>os.RemoveAll\<close>: nothing to do for the empty path or a path that does not exist; a path
  ending in \<open>.\<close> is refused. Otherwise everything below the path is removed that can be:
  an entry cannot be unlinked from a directory without search permission, so such
  entries stay, with the directories that lead to them, and the call fails. The errors
  of \<open>os.RemoveAll\<close> are given the operation name \<open>unlinkat\<close> and the path of the call.
\<close>

definition endsWithDot :: "string \<Rightarrow> bool" where
  "endsWithDot path =
     (case rev path of
        [] \<Rightarrow> False
      | [c] \<Rightarrow> c = CHR ''.''
      | c # s # r \<Rightarrow> c = CHR ''.'' \<and> s = Separator)"

definition stuck :: "filesystem \<Rightarrow> string list \<Rightarrow> string list \<Rightarrow> bool" where
  "stuck fs p k =
     list_ex (\<lambda>a. prefix p a \<and> lookup fs a = Some (Dir False)) (butlast (prefixes k))"

definition kept :: "filesystem \<Rightarrow> string list \<Rightarrow> string list \<Rightarrow> bool" where
  "kept fs p k = (k = [] \<or> list_ex (\<lambda>(k', n). prefix k k' \<and> stuck fs p k') (nodes fs))"

definition os_RemoveAll :: "filesystem \<Rightarrow> string \<Rightarrow> error option \<times> filesystem" where
  "os_RemoveAll fs path =
     (if path = [] then (None, fs)
      else if endsWithDot path then (Some (PathError ''RemoveAll'' path EINVAL), fs)
      else
        (case resolve fs path of
           Inl e \<Rightarrow> if e = ENOENT then (None, fs) else (Some (PathError ''unlinkat'' path e), fs)
         | Inr p \<Rightarrow>
             (case lookup fs p of
                None \<Rightarrow> (None, fs)
              | Some n \<Rightarrow>
                  let fs' = discard (\<lambda>k. prefix p k \<and> \<not> kept fs p k) fs
                  in if list_ex (\<lambda>(k, n). prefix p k \<and> kept fs p k) (nodes fs)
                     then (Some (PathError ''unlinkat'' path (if p = [] then EBUSY else EACCES)), fs')
                     else (None, fs'))))"

section \<open>The store (main.go)\<close>

text \<open>
  A \<open>*sync.Mutex\<close> is modelled by its address, a number handed out by an allocation
  counter (\<open>heap_next\<close>); the registry \<open>mutexes\<close> is an association list read with
  \<open>map_of\<close>. The field \<open>events\<close> is the trace of the calls made on the locks, the
  registry and the logger, in program order: it records where locking happens. The model
  is of one goroutine at a time, in which every \<open>Lock\<close> finds its mutex free, because
  each operation releases what it acquired before it returns.
\<close>

datatype Logger = ConsoleLogger | CustomLogger nat

datatype event =
    GlobalLock
  | GlobalUnlock
  | RegistryGet string
  | RegistryPut string nat
  | MutexLock nat
  | MutexUnlock nat
  | LogDebug string
  | LogInfo string

record Driver =
  mutexes :: "(string \<times> nat) list"
  dir :: string
  logger :: Logger
  heap_next :: nat
  events :: "event list"

definition newline :: char where
  "newline = CHR 0x0A"

definition quoted :: "string \<Rightarrow> string" where
  "quoted s = CHR 0x27 # s @ [CHR 0x27]"

definition emit :: "event \<Rightarrow> Driver \<Rightarrow> Driver" where
  "emit e d = d\<lparr>events := events d @ [e]\<rparr>"

definition New :: "string \<Rightarrow> Logger option \<Rightarrow> filesystem \<Rightarrow> Driver \<times> error option \<times> filesystem" where
  "New dir0 options fs =
     (let dir1 = filepath_Clean dir0;
          lg = (case options of None \<Rightarrow> ConsoleLogger | Some l \<Rightarrow> l);
          driver = \<lparr>mutexes = [], dir = dir1, logger = lg, heap_next = 0, events = []\<rparr>
      in case os_Stat fs dir1 of
           Inr fi \<Rightarrow>
             (emit (LogDebug (''Using '' @ quoted dir1 @ '' (database already exists)'' @ [newline]))
                driver, None, fs)
         | Inl err \<Rightarrow>
             (case os_Mkdir fs dir1 of
                (res, fs') \<Rightarrow>
                  (emit (LogInfo (''Creating new database at '' @ quoted dir1 @ ''...'' @ [newline]))
                     driver, res, fs')))"

definition getOrCreateMutex :: "Driver \<Rightarrow> string \<Rightarrow> nat \<times> Driver" where
  "getOrCreateMutex d collection =
     (let d1 = emit (RegistryGet collection) (emit GlobalLock d)
      in case map_of (mutexes d1) collection of
           Some m \<Rightarrow> (m, emit GlobalUnlock d1)
         | None \<Rightarrow>
             (let m = heap_next d1;
                  d2 = d1\<lparr>heap_next := Suc (heap_next d1),
                         mutexes := AList.update collection m (mutexes d1)\<rparr>
              in (m, emit GlobalUnlock (emit (RegistryPut collection m) d2))))"

definition stat :: "filesystem \<Rightarrow> string \<Rightarrow> error + FileMode" where
  "stat fs path =
     (case os_Stat fs path of
        Inr fi \<Rightarrow> Inr fi
      | Inl err \<Rightarrow> if os_IsNotExist err then os_Stat fs (path @ ''.json'') else Inl err)"

text \<open>
  \<open>encoding/json\<close> is outside the repository: the encoder (\<open>json.MarshalIndent\<close> with its
  fixed arguments) and the decoder (\<open>json.Unmarshal\<close>) are parameters of \<open>Write\<close> and
  \<open>Read\<close>, over any type of values.
\<close>

definition Write_locked ::
  "('v \<Rightarrow> error + string) \<Rightarrow> string \<Rightarrow> filesystem \<Rightarrow> string \<Rightarrow> string \<Rightarrow> 'v
    \<Rightarrow> error option \<times> filesystem" where
  "Write_locked marshal root fs collection resource v =
     (let dir1 = filepath_Join [root, collection];
          fnlPath = filepath_Join [dir1, resource @ ''.json''];
          tempPath = fnlPath @ ''.tmp''
      in case os_MkdirAll fs dir1 of
           (Some err, fs1) \<Rightarrow> (Some err, fs1)
         | (None, fs1) \<Rightarrow>
             (case marshal v of
                Inl err \<Rightarrow> (Some err, fs1)
              | Inr b \<Rightarrow>
                  (case ioutil_WriteFile fs1 tempPath (b @ [newline]) of
                     (Some err, fs2) \<Rightarrow> (Some err, fs2)
                   | (None, fs2) \<Rightarrow> os_Rename fs2 tempPath fnlPath)))"

definition Write ::
  "('v \<Rightarrow> error + string) \<Rightarrow> Driver \<Rightarrow> filesystem \<Rightarrow> string \<Rightarrow> string \<Rightarrow> 'v
    \<Rightarrow> error option \<times> Driver \<times> filesystem" where
  "Write marshal d fs collection resource v =
     (if collection = [] then (Some (Errorf ''collection name cannot be empty''), d, fs)
      else if resource = [] then (Some (Errorf ''resource name cannot be empty''), d, fs)
      else
        (case getOrCreateMutex d collection of
           (mutex, d1) \<Rightarrow>
             (case Write_locked marshal (dir d) fs collection resource v of
                (res, fs') \<Rightarrow> (res, emit (MutexUnlock mutex) (emit (MutexLock mutex) d1), fs'))))"


text \<open>The loop of \<open>ReadAll\<close>: the first file that cannot be read ends it with no records.\<close>

fun read_files :: "filesystem \<Rightarrow> string \<Rightarrow> string list \<Rightarrow> string list \<Rightarrow> string list \<times> error option" where
  "read_files fs dir1 [] records = (records, None)"
| "read_files fs dir1 (file # files) records =
     (case ioutil_ReadFile fs (filepath_Join [dir1, file]) of
        Inl err \<Rightarrow> ([], Some err)
      | Inr b \<Rightarrow> read_files fs dir1 files (records @ [b]))"

definition ReadAll :: "Driver \<Rightarrow> filesystem \<Rightarrow> string \<Rightarrow> string list \<times> error option" where
  "ReadAll d fs collection =
     (if collection = [] then ([], Some (Errorf ''collection name cannot be empty''))
      else
        let dir1 = filepath_Join [dir d, collection]
        in case stat fs dir1 of
             Inl err \<Rightarrow> ([], Some err)
           | Inr fi \<Rightarrow>
               (let files = (case ioutil_ReadDir fs dir1 of Inl err \<Rightarrow> [] | Inr names \<Rightarrow> names)
                in read_files fs dir1 files []))"

definition Delete_locked :: "string \<Rightarrow> filesystem \<Rightarrow> string \<Rightarrow> string \<Rightarrow> error option \<times> filesystem" where
  "Delete_locked root fs collection resource =
     (let path = filepath_Join [collection, resource];
          dir1 = filepath_Join [root, path]
      in case stat fs dir1 of
           Inl err \<Rightarrow>
             (Some (Errorf (''resource '' @ quoted resource @ '' does not exist in collection ''
                            @ quoted collection)), fs)
         | Inr ModeDir \<Rightarrow> os_RemoveAll fs dir1
         | Inr ModeRegular \<Rightarrow> os_Remove fs (dir1 @ ''.json''))"

definition Delete :: "Driver \<Rightarrow> filesystem \<Rightarrow> string \<Rightarrow> string \<Rightarrow> error option \<times> Driver \<times> filesystem" where
  "Delete d fs collection resource =
     (if collection = [] then (Some (Errorf ''collection name cannot be empty''), d, fs)
      else
        (case getOrCreateMutex d collection of
           (mutex, d1) \<Rightarrow>
             (case Delete_locked (dir d) fs collection resource of
                (res, fs') \<Rightarrow> (res, emit (MutexUnlock mutex) (emit (MutexLock mutex) d1), fs'))))"

section \<open>Vocabulary of the statements\<close>

text \<open>
  The store returns plain Go errors. The two errors for an empty name are what the
  specification calls a validation error.
\<close>

definition is_ValidationError :: "error \<Rightarrow> bool" where
  "is_ValidationError err =
     (err = Errorf ''collection name cannot be empty'' \<or> err = Errorf ''resource name cannot be empty'')"

text \<open>A path without redundant separators: no two separators in a row.\<close>

fun no_double_separator :: "string \<Rightarrow> bool" where
  "no_double_separator (a # b # s) = (\<not> (a = Separator \<and> b = Separator) \<and> no_double_separator (b # s))"
| "no_double_separator s = True"

text \<open>An element of a cleaned path: not empty and free of separators.\<close>

definition element :: "string \<Rightarrow> bool" where
  "element e = (e \<noteq> [] \<and> Separator \<notin> set e)"

text \<open>
  The place a path names, by its text alone (no look at the file system): where path
  resolution ends whenever it succeeds. \<open>file_at\<close> is the document stored at a place, if
  a regular file is there.
\<close>

fun lex_walk :: "string list \<Rightarrow> string list \<Rightarrow> string list" where
  "lex_walk cur [] = cur"
| "lex_walk cur (c # cs) =
     (if c = [] \<or> c = ''.'' then lex_walk cur cs
      else if c = ''..'' then lex_walk (butlast cur) cs
      else lex_walk (cur @ [c]) cs)"

definition location :: "filesystem \<Rightarrow> string \<Rightarrow> string list" where
  "location fs name = lex_walk (if hd name = Separator then [] else cwd fs) (split_path name)"

definition file_at :: "filesystem \<Rightarrow> string list \<Rightarrow> string option" where
  "file_at fs k = (case lookup fs k of Some (File b) \<Rightarrow> Some b | _ \<Rightarrow> None)"

text \<open>
  Reading a trace: \<open>under_lock held es\<close> follows the global mutex through the events
  \<open>es\<close> and gives its state at the end, or \<open>None\<close> when the mutex is locked twice,
  unlocked while free, or the registry is read or written while the mutex is free.
\<close>

fun under_lock :: "bool \<Rightarrow> event list \<Rightarrow> bool option" where
  "under_lock held [] = Some held"
| "under_lock held (GlobalLock # es) = (if held then None else under_lock True es)"
| "under_lock held (GlobalUnlock # es) = (if held then under_lock False es else None)"
| "under_lock held (RegistryGet c # es) = (if held then under_lock held es else None)"
| "under_lock held (RegistryPut c m # es) = (if held then under_lock held es else None)"
| "under_lock held (e # es) = under_lock held es"

text \<open>Calls on one store, one after the other.\<close>

datatype 'v call =
    CallWrite string string 'v
  | CallDelete string string
  | CallLookup string

fun apply_call :: "('v \<Rightarrow> error + string) \<Rightarrow> Driver \<times> filesystem \<Rightarrow> 'v call \<Rightarrow> Driver \<times> filesystem" where
  "apply_call marshal (d, fs) (CallWrite collection resource v) =
     snd (Write marshal d fs collection resource v)"
| "apply_call marshal (d, fs) (CallDelete collection resource) =
     snd (Delete d fs collection resource)"
| "apply_call marshal (d, fs) (CallLookup collection) =
     (snd (getOrCreateMutex d collection), fs)"

section \<open>Concrete stores for the examples\<close>

text \<open>
  A codec for the examples: a document is the text itself, and decoding takes the
  newline that \<open>Write\<close> appends off again.
\<close>

definition line_marshal :: "string \<Rightarrow> error + string" where
  "line_marshal v = Inr v"


definition db_driver :: Driver where
  "db_driver = \<lparr>mutexes = [], dir = ''db'', logger = ConsoleLogger, heap_next = 0, events = []\<rparr>"

text \<open>An empty store in the directory \<open>/db\<close>, the working directory being the root.\<close>

definition empty_db :: filesystem where
  "empty_db = \<lparr>nodes = [([], Dir True), ([''db''], Dir True)], cwd = [], free_space = 1000\<rparr>"

text \<open>One document \<open>John\<close> in the collection \<open>users\<close>.\<close>

definition john_db :: filesystem where
  "john_db =
     \<lparr>nodes = [([], Dir True), ([''db''], Dir True), ([''db'', ''users''], Dir True),
               ([''db'', ''users'', ''John.json''], File ''hello'')],
      cwd = [], free_space = 1000\<rparr>"

text \<open>The same, with a file \<open>John\<close> without extension and no \<open>John.json\<close>.\<close>

definition bare_db :: filesystem where
  "bare_db =
     \<lparr>nodes = [([], Dir True), ([''db''], Dir True), ([''db'', ''users''], Dir True),
               ([''db'', ''users'', ''John''], File ''hello'')],
      cwd = [], free_space = 1000\<rparr>"

text \<open>The collection directory has lost its search permission.\<close>

definition locked_db :: filesystem where
  "locked_db =
     \<lparr>nodes = [([], Dir True), ([''db''], Dir True), ([''db'', ''users''], Dir False),
               ([''db'', ''users'', ''John.json''], File ''hello'')],
      cwd = [], free_space = 1000\<rparr>"

text \<open>A directory \<open>archive\<close> sits among the documents of the collection.\<close>

definition nested_db :: filesystem where
  "nested_db =
     \<lparr>nodes = [([], Dir True), ([''db''], Dir True), ([''db'', ''users''], Dir True),
               ([''db'', ''users'', ''John.json''], File ''hello''),
               ([''db'', ''users'', ''archive''], Dir True)],
      cwd = [], free_space = 1000\<rparr>"

text \<open>Beside the collection directory \<open>users\<close> there is a file \<open>users.json\<close>.\<close>

definition sibling_db :: filesystem where
  "sibling_db =
     \<lparr>nodes = [([], Dir True), ([''db''], Dir True), ([''db'', ''users''], Dir True),
               ([''db'', ''users'', ''John.json''], File ''hello''),
               ([''db'', ''users.json''], File ''index'')],
      cwd = [], free_space = 1000\<rparr>"

text \<open>There is no collection directory, only the file \<open>users.json\<close>.\<close>

definition orphan_db :: filesystem where
  "orphan_db =
     \<lparr>nodes = [([], Dir True), ([''db''], Dir True), ([''db'', ''users.json''], File ''index'')],
      cwd = [], free_space = 1000\<rparr>"

text \<open>The store with one document, on a disk where a write can store three bytes only.\<close>

definition small_db :: filesystem where
  "small_db =
     \<lparr>nodes = [([], Dir True), ([''db''], Dir True), ([''db'', ''users''], Dir True),
               ([''db'', ''users'', ''John.json''], File ''hello'')],
      cwd = [], free_space = 3\<rparr>"

text \<open>A disk with the root directory only: the directory of the store does not exist yet.\<close>

definition blank_disk :: filesystem where
  "blank_disk = \<lparr>nodes = [([], Dir True)], cwd = [], free_space = 1000\<rparr>"

section \<open>Properties\<close>

subsection \<open>Empty names\<close>

text \<open>
  C2. \<open>Write\<close> with an empty collection name, and \<open>Write\<close> with an empty resource name,
  fail with a validation error and return the store and the file system as they were:
  no lock was looked up or taken (the registry and the trace of the driver are
  unchanged) and no file was touched.
\<close>

theorem Write_rejects_empty_names:
  "Write marshal d fs [] resource v = (Some (Errorf ''collection name cannot be empty''), d, fs)
   \<and> is_ValidationError (Errorf ''collection name cannot be empty'')
   \<and> (\<exists>err. is_ValidationError err \<and> Write marshal d fs collection [] v = (Some err, d, fs))"
  by (simp add: Write_def is_ValidationError_def)

subsection \<open>ReadAll\<close>

lemma ReadFile_error_is_PathError:
  "ioutil_ReadFile fs name = Inl err \<Longrightarrow> \<exists>opn e. err = PathError opn name e"
  by (auto simp: ioutil_ReadFile_def split: sum.splits option.splits node.splits)

lemma read_files_fail:
  "file \<in> set files \<Longrightarrow> ioutil_ReadFile fs (filepath_Join [dir1, file]) = Inl err \<Longrightarrow>
   \<exists>file' err'. file' \<in> set files \<and> ioutil_ReadFile fs (filepath_Join [dir1, file']) = Inl err'
      \<and> read_files fs dir1 files records = ([], Some err')"
proof (induction files arbitrary: records)
  case Nil
  then show ?case by simp
next
  case (Cons a files)
  show ?case
  proof (cases "ioutil_ReadFile fs (filepath_Join [dir1, a])")
    case (Inl e)
    then show ?thesis by auto
  next
    case (Inr b)
    with Cons.prems have "file \<in> set files" by auto
    from Cons.IH [OF this Cons.prems(2), of "records @ [b]"] Inr show ?thesis by auto
  qed
qed

text \<open>
  C10. When the existence check of \<open>ReadAll\<close> passes and the listing of the directory
  fails, the error of the listing is dropped and \<open>ReadAll\<close> returns no records and no
  error.
\<close>

theorem ReadAll_ignores_ReadDir_error:
  assumes "collection \<noteq> []"
    and "stat fs (filepath_Join [dir d, collection]) = Inr fi"
    and "ioutil_ReadDir fs (filepath_Join [dir d, collection]) = Inl err"
  shows "ReadAll d fs collection = ([], None)"
  using assms by (simp add: ReadAll_def)

theorem ReadAll_ignores_ReadDir_error_witness:
  "ReadAll db_driver orphan_db ''users'' = ([], None)"
proof -
  have 1: "''users'' \<noteq> []" by simp
  have 2: "stat orphan_db (filepath_Join [dir db_driver, ''users'']) = Inr ModeRegular"
    by code_simp
  have 3: "ioutil_ReadDir orphan_db (filepath_Join [dir db_driver, ''users''])
             = Inl (PathError ''open'' ''db/users'' ENOENT)"
    by code_simp
  show ?thesis by (rule ReadAll_ignores_ReadDir_error [OF 1 2 3])
qed

text \<open>
  C6. When the collection directory is listed and one of its entries cannot be read,
  \<open>ReadAll\<close> returns no records at all, together with the error of an entry that could
  not be read, which is an I/O error (a \<open>PathError\<close>) on that entry.
\<close>

theorem ReadAll_fails_fast:
  assumes "collection \<noteq> []"
    and "stat fs (filepath_Join [dir d, collection]) = Inr fi"
    and "ioutil_ReadDir fs (filepath_Join [dir d, collection]) = Inr files"
    and "file \<in> set files"
    and "ioutil_ReadFile fs (filepath_Join [filepath_Join [dir d, collection], file]) = Inl err"
  shows "\<exists>file' opn e. file' \<in> set files
           \<and> ioutil_ReadFile fs (filepath_Join [filepath_Join [dir d, collection], file'])
               = Inl (PathError opn (filepath_Join [filepath_Join [dir d, collection], file']) e)
           \<and> ReadAll d fs collection
               = ([], Some (PathError opn (filepath_Join [filepath_Join [dir d, collection], file']) e))"
proof -
  let ?dir = "filepath_Join [dir d, collection]"
  from read_files_fail [OF assms(4) assms(5), of "[]"]
  obtain file' err' where f: "file' \<in> set files"
    and r: "ioutil_ReadFile fs (filepath_Join [?dir, file']) = Inl err'"
    and a: "read_files fs ?dir files [] = ([], Some err')" by blast
  from ReadFile_error_is_PathError [OF r] obtain opn e
    where e: "err' = PathError opn (filepath_Join [?dir, file']) e" by blast
  have "ReadAll d fs collection = read_files fs ?dir files []"
    using assms(1,2,3) by (simp add: ReadAll_def)
  with f r a e show ?thesis by auto
qed

theorem ReadAll_fails_fast_witness:
  "\<exists>file' opn e. file' \<in> set [''John.json'', ''archive'']
           \<and> ioutil_ReadFile nested_db (filepath_Join [filepath_Join [dir db_driver, ''users''], file'])
               = Inl (PathError opn (filepath_Join [filepath_Join [dir db_driver, ''users''], file']) e)
           \<and> ReadAll db_driver nested_db ''users''
               = ([], Some (PathError opn (filepath_Join [filepath_Join [dir db_driver, ''users''], file']) e))"
proof -
  have 1: "''users'' \<noteq> []" by simp
  have 2: "stat nested_db (filepath_Join [dir db_driver, ''users'']) = Inr ModeDir"
    by code_simp
  have 3: "ioutil_ReadDir nested_db (filepath_Join [dir db_driver, ''users''])
             = Inr [''John.json'', ''archive'']"
    by code_simp
  have 4: "''archive'' \<in> set [''John.json'', ''archive'']" by simp
  have 5: "ioutil_ReadFile nested_db (filepath_Join [filepath_Join [dir db_driver, ''users''], ''archive''])
             = Inl (PathError ''read'' ''db/users/archive'' EISDIR)"
    by code_simp
  show ?thesis by (rule ReadAll_fails_fast [OF 1 2 3 4 5])
qed

subsection \<open>Delete\<close>

lemma Remove_error_is_PathError:
  "os_Remove fs name = (Some err, fs') \<Longrightarrow> \<exists>opn e. err = PathError opn name e"
  by (auto simp: os_Remove_def split: sum.splits option.splits node.splits if_splits)

lemma RemoveAll_error_is_PathError:
  "os_RemoveAll fs name = (Some err, fs') \<Longrightarrow> \<exists>opn e. err = PathError opn name e"
  by (auto simp: os_RemoveAll_def Let_def split: sum.splits option.splits node.splits if_splits)

text \<open>
  C7, as stated, fails: in \<open>locked_db\<close> the document \<open>John.json\<close> exists, the probe of
  \<open>Delete\<close> fails with a permission error (\<open>EACCES\<close>, which is not a not-exist error), and
  \<open>Delete\<close> still answers that the resource does not exist.
\<close>

theorem Delete_probe_hides_permission_error:
  "lookup locked_db [''db'', ''users'', ''John.json''] = Some (File ''hello'')
   \<and> os_Stat locked_db ''db/users/John'' = Inl (PathError ''stat'' ''db/users/John'' EACCES)
   \<and> \<not> os_IsNotExist (PathError ''stat'' ''db/users/John'' EACCES)
   \<and> fst (Delete db_driver locked_db ''users'' ''John'')
       = Some (Errorf (''resource '' @ quoted ''John'' @ '' does not exist in collection ''
                        @ quoted ''users''))"
  by code_simp

text \<open>
  C7, amended. For a non-empty collection name: whenever the probe \<open>stat\<close> fails, for
  whatever reason (neither form of the path exists, or any other error of the probe such
  as a permission error), \<open>Delete\<close> fails with the error that the resource does not exist
  in the collection, naming both, and changes no file. When the probe finds a directory
  the outcome is that of \<open>os.RemoveAll\<close> on the path, when it finds a regular file that of
  \<open>os.Remove\<close> on the path with the extension; an error of the removal is returned as it
  is, an I/O error (a \<open>PathError\<close>).
\<close>

theorem Delete_errors:
  assumes "collection \<noteq> []"
  shows "(\<forall>err. stat fs (filepath_Join [dir d, filepath_Join [collection, resource]]) = Inl err \<longrightarrow>
            fst (Delete d fs collection resource)
              = Some (Errorf (''resource '' @ quoted resource @ '' does not exist in collection ''
                              @ quoted collection))
            \<and> snd (snd (Delete d fs collection resource)) = fs)
       \<and> (stat fs (filepath_Join [dir d, filepath_Join [collection, resource]]) = Inr ModeDir \<longrightarrow>
            (fst (Delete d fs collection resource), snd (snd (Delete d fs collection resource)))
              = os_RemoveAll fs (filepath_Join [dir d, filepath_Join [collection, resource]]))
       \<and> (stat fs (filepath_Join [dir d, filepath_Join [collection, resource]]) = Inr ModeRegular \<longrightarrow>
            (fst (Delete d fs collection resource), snd (snd (Delete d fs collection resource)))
              = os_Remove fs (filepath_Join [dir d, filepath_Join [collection, resource]] @ ''.json''))
       \<and> (\<forall>fi err. stat fs (filepath_Join [dir d, filepath_Join [collection, resource]]) = Inr fi \<longrightarrow>
            fst (Delete d fs collection resource) = Some err \<longrightarrow>
            (\<exists>opn name e. err = PathError opn name e))"
proof -
  let ?T = "filepath_Join [dir d, filepath_Join [collection, resource]]"
  have D: "fst (Delete d fs collection resource) = fst (Delete_locked (dir d) fs collection resource)"
          "snd (snd (Delete d fs collection resource)) = snd (Delete_locked (dir d) fs collection resource)"
    using assms by (simp_all add: Delete_def split: prod.splits)
  have a: "\<And>err. stat fs ?T = Inl err \<Longrightarrow>
            Delete_locked (dir d) fs collection resource
              = (Some (Errorf (''resource '' @ quoted resource @ '' does not exist in collection ''
                              @ quoted collection)), fs)"
    by (simp add: Delete_locked_def)
  have b: "stat fs ?T = Inr ModeDir \<Longrightarrow>
            Delete_locked (dir d) fs collection resource = os_RemoveAll fs ?T"
    by (simp add: Delete_locked_def)
  have c: "stat fs ?T = Inr ModeRegular \<Longrightarrow>
            Delete_locked (dir d) fs collection resource = os_Remove fs (?T @ ''.json'')"
    by (simp add: Delete_locked_def)
  have e: "\<And>fi err. stat fs ?T = Inr fi \<Longrightarrow> fst (Delete_locked (dir d) fs collection resource) = Some err
            \<Longrightarrow> \<exists>opn name e. err = PathError opn name e"
  proof -
    fix fi err
    assume s: "stat fs ?T = Inr fi" and f: "fst (Delete_locked (dir d) fs collection resource) = Some err"
    show "\<exists>opn name e. err = PathError opn name e"
    proof (cases fi)
      case ModeDir
      with s b f have "fst (os_RemoveAll fs ?T) = Some err" by simp
      then obtain fs' where "os_RemoveAll fs ?T = (Some err, fs')" by (cases "os_RemoveAll fs ?T") auto
      from RemoveAll_error_is_PathError [OF this] show ?thesis by blast
    next
      case ModeRegular
      with s c f have "fst (os_Remove fs (?T @ ''.json'')) = Some err" by simp
      then obtain fs' where "os_Remove fs (?T @ ''.json'') = (Some err, fs')"
        by (cases "os_Remove fs (?T @ ''.json'')") auto
      from Remove_error_is_PathError [OF this] show ?thesis by blast
    qed
  qed
  have 1: "\<forall>err. stat fs ?T = Inl err \<longrightarrow>
            fst (Delete d fs collection resource)
              = Some (Errorf (''resource '' @ quoted resource @ '' does not exist in collection ''
                              @ quoted collection))
            \<and> snd (snd (Delete d fs collection resource)) = fs"
    using a by (simp add: D)
  have 2: "stat fs ?T = Inr ModeDir \<longrightarrow>
            (fst (Delete d fs collection resource), snd (snd (Delete d fs collection resource)))
              = os_RemoveAll fs ?T"
    using b by (simp add: D)
  have 3: "stat fs ?T = Inr ModeRegular \<longrightarrow>
            (fst (Delete d fs collection resource), snd (snd (Delete d fs collection resource)))
              = os_Remove fs (?T @ ''.json'')"
    using c by (simp add: D)
  have 4: "\<forall>fi err. stat fs ?T = Inr fi \<longrightarrow>
            fst (Delete d fs collection resource) = Some err \<longrightarrow>
            (\<exists>opn name e. err = PathError opn name e)"
    using e unfolding D by blast
  from 1 2 3 4 show ?thesis by (intro conjI)
qed

theorem Delete_errors_witness:
  "fst (Delete db_driver locked_db ''users'' ''John'')
     = Some (Errorf (''resource '' @ quoted ''John'' @ '' does not exist in collection '' @ quoted ''users''))
   \<and> snd (snd (Delete db_driver locked_db ''users'' ''John'')) = locked_db
   \<and> (fst (Delete db_driver john_db ''users'' ''''), snd (snd (Delete db_driver john_db ''users'' '''')))
       = os_RemoveAll john_db ''db/users''
   \<and> (fst (Delete db_driver john_db ''users'' ''John''), snd (snd (Delete db_driver john_db ''users'' ''John'')))
       = os_Remove john_db ''db/users/John.json''
   \<and> (fst (Delete db_driver bare_db ''users'' ''John'') = Some (PathError ''remove'' ''db/users/John.json'' ENOENT))"
proof -
  have n: "''users'' \<noteq> []" by simp
  have s1: "stat locked_db (filepath_Join [dir db_driver, filepath_Join [''users'', ''John'']])
              = Inl (PathError ''stat'' ''db/users/John'' EACCES)" by code_simp
  have s2: "stat john_db (filepath_Join [dir db_driver, filepath_Join [''users'', '''']]) = Inr ModeDir"
    by code_simp
  have s3: "stat john_db (filepath_Join [dir db_driver, filepath_Join [''users'', ''John'']]) = Inr ModeRegular"
    by code_simp
  have p2: "filepath_Join [dir db_driver, filepath_Join [''users'', '''']] = ''db/users''" by code_simp
  have p3: "filepath_Join [dir db_driver, filepath_Join [''users'', ''John'']] = ''db/users/John''" by code_simp
  have s4: "stat bare_db (filepath_Join [dir db_driver, filepath_Join [''users'', ''John'']]) = Inr ModeRegular"
    by code_simp
  have r4: "os_Remove bare_db ''db/users/John.json'' = (Some (PathError ''remove'' ''db/users/John.json'' ENOENT), bare_db)"
    by code_simp
  from Delete_errors [OF n, of locked_db db_driver "''John''"] s1
  have A: "fst (Delete db_driver locked_db ''users'' ''John'')
     = Some (Errorf (''resource '' @ quoted ''John'' @ '' does not exist in collection '' @ quoted ''users''))
   \<and> snd (snd (Delete db_driver locked_db ''users'' ''John'')) = locked_db" by blast
  from Delete_errors [OF n, of john_db db_driver "''''"] s2 p2
  have B: "(fst (Delete db_driver john_db ''users'' ''''), snd (snd (Delete db_driver john_db ''users'' '''')))
       = os_RemoveAll john_db ''db/users''" by simp
  from Delete_errors [OF n, of john_db db_driver "''John''"] s3 p3
  have C: "(fst (Delete db_driver john_db ''users'' ''John''), snd (snd (Delete db_driver john_db ''users'' ''John'')))
       = os_Remove john_db ''db/users/John.json''" by simp
  from Delete_errors [OF n, of bare_db db_driver "''John''"] s4 p3 r4
  have D: "fst (Delete db_driver bare_db ''users'' ''John'') = Some (PathError ''remove'' ''db/users/John.json'' ENOENT)"
    by simp
  from A B C D show ?thesis by blast
qed

subsection \<open>Read\<close>




subsection \<open>The lock registry\<close>

lemma under_lock_append:
  "under_lock held (xs @ ys) = (case under_lock held xs of None \<Rightarrow> None | Some h \<Rightarrow> under_lock h ys)"
  by (induction held xs rule: under_lock.induct) auto

lemma getOrCreateMutex_cases:
  "getOrCreateMutex d c = (m, d') \<Longrightarrow>
     (map_of (mutexes d) c = Some m \<and> mutexes d' = mutexes d \<and> heap_next d' = heap_next d
        \<and> events d' = events d @ [GlobalLock, RegistryGet c, GlobalUnlock])
   \<or> (map_of (mutexes d) c = None \<and> m = heap_next d
        \<and> mutexes d' = AList.update c m (mutexes d) \<and> heap_next d' = Suc (heap_next d)
        \<and> events d' = events d @ [GlobalLock, RegistryGet c, RegistryPut c m, GlobalUnlock])"
  by (auto simp: getOrCreateMutex_def emit_def Let_def split: option.splits)

lemma getOrCreateMutex_dir: "dir (snd (getOrCreateMutex d c)) = dir d"
  by (auto simp: getOrCreateMutex_def emit_def Let_def split: option.splits)

lemma getOrCreateMutex_registered:
  "getOrCreateMutex d c = (m, d') \<Longrightarrow> map_of (mutexes d') c = Some m"
  by (drule getOrCreateMutex_cases) (auto simp: update_conv')

lemma getOrCreateMutex_keeps:
  "getOrCreateMutex d c = (m, d') \<Longrightarrow> map_of (mutexes d) c' = Some m' \<Longrightarrow>
   map_of (mutexes d') c' = Some m'"
  by (drule getOrCreateMutex_cases) (auto simp: update_conv')

lemma getOrCreateMutex_under_lock:
  "getOrCreateMutex d c = (m, d') \<Longrightarrow> under_lock False (events d) = Some False \<Longrightarrow>
   under_lock False (events d') = Some False"
  by (drule getOrCreateMutex_cases) (auto simp: under_lock_append)

lemma emit_mutexes: "mutexes (emit e d) = mutexes d"
  by (simp add: emit_def)

lemma under_lock_emit_Mutex:
  "under_lock False (events (emit (MutexUnlock m) (emit (MutexLock m) d))) = under_lock False (events d)"
  by (simp add: emit_def under_lock_append split: option.splits)

lemma apply_call_keeps:
  assumes "apply_call marshal (d, fs) call = (d', fs')"
  shows "(map_of (mutexes d) c = Some m \<longrightarrow> map_of (mutexes d') c = Some m)
       \<and> (under_lock False (events d) = Some False \<longrightarrow> under_lock False (events d') = Some False)"
proof (cases call)
  case (CallWrite col res v)
  show ?thesis
  proof (cases "col = [] \<or> res = []")
    case True
    with assms CallWrite have "d' = d" by (auto simp: Write_def split: if_splits)
    then show ?thesis by simp
  next
    case False
    obtain mu d1 where g: "getOrCreateMutex d col = (mu, d1)" by (cases "getOrCreateMutex d col")
    with assms CallWrite False have "d' = emit (MutexUnlock mu) (emit (MutexLock mu) d1)"
      by (auto simp: Write_def split: prod.splits)
    then show ?thesis
      using getOrCreateMutex_keeps [OF g] getOrCreateMutex_under_lock [OF g]
      by (simp add: emit_mutexes under_lock_emit_Mutex)
  qed
next
  case (CallDelete col res)
  show ?thesis
  proof (cases "col = []")
    case True
    with assms CallDelete have "d' = d" by (auto simp: Delete_def split: if_splits)
    then show ?thesis by simp
  next
    case False
    obtain mu d1 where g: "getOrCreateMutex d col = (mu, d1)" by (cases "getOrCreateMutex d col")
    with assms CallDelete False have "d' = emit (MutexUnlock mu) (emit (MutexLock mu) d1)"
      by (auto simp: Delete_def split: prod.splits)
    then show ?thesis
      using getOrCreateMutex_keeps [OF g] getOrCreateMutex_under_lock [OF g]
      by (simp add: emit_mutexes under_lock_emit_Mutex)
  qed
next
  case (CallLookup col)
  obtain mu d1 where g: "getOrCreateMutex d col = (mu, d1)" by (cases "getOrCreateMutex d col")
  with assms CallLookup have "d' = d1" by simp
  then show ?thesis
    using getOrCreateMutex_keeps [OF g] getOrCreateMutex_under_lock [OF g] by simp
qed

lemma calls_keep:
  "foldl (apply_call marshal) (d, fs) calls = (d', fs') \<Longrightarrow>
   (map_of (mutexes d) c = Some m \<longrightarrow> map_of (mutexes d') c = Some m)
   \<and> (under_lock False (events d) = Some False \<longrightarrow> under_lock False (events d') = Some False)"
proof (induction calls arbitrary: d fs)
  case Nil
  then show ?case by simp
next
  case (Cons call calls)
  obtain d1 fs1 where s: "apply_call marshal (d, fs) call = (d1, fs1)"
    by (cases "apply_call marshal (d, fs) call")
  with Cons.prems have "foldl (apply_call marshal) (d1, fs1) calls = (d', fs')" by simp
  from Cons.IH [OF this] apply_call_keeps [OF s, of c m] show ?case by blast
qed

text \<open>
  C9. A lookup of the lock of a collection registers the lock it returns; when the
  collection already has a lock, that lock is returned and nothing is allocated or
  changed in the registry (created at most once). After any further calls of \<open>Write\<close>,
  \<open>Delete\<close> and the lookup itself on the store, for any collections, the lookup for the
  same name returns the identical lock, and every entry the registry had is still there
  (never removed). The lookup-or-create takes the global mutex first and releases it
  last, and over the whole run the registry is never read or written while the global
  mutex is free. The calls are taken one after the other (one goroutine).
\<close>

theorem lock_registry_memoized:
  assumes "getOrCreateMutex d collection = (m, d1)"
    and "foldl (apply_call marshal) (d1, fs) calls = (d2, fs2)"
    and "under_lock False (events d) = Some False"
  shows "map_of (mutexes d1) collection = Some m
       \<and> (\<forall>m0. map_of (mutexes d) collection = Some m0 \<longrightarrow>
             m = m0 \<and> mutexes d1 = mutexes d \<and> heap_next d1 = heap_next d)
       \<and> fst (getOrCreateMutex d2 collection) = m
       \<and> (\<forall>c m'. map_of (mutexes d) c = Some m' \<longrightarrow> map_of (mutexes d2) c = Some m')
       \<and> (events d1 = events d @ [GlobalLock, RegistryGet collection, GlobalUnlock]
            \<or> events d1 = events d @ [GlobalLock, RegistryGet collection,
                                       RegistryPut collection m, GlobalUnlock])
       \<and> under_lock False (events d2) = Some False"
proof -
  note c = getOrCreateMutex_cases [OF assms(1)]
  have 1: "map_of (mutexes d1) collection = Some m"
    by (rule getOrCreateMutex_registered [OF assms(1)])
  have 2: "\<forall>m0. map_of (mutexes d) collection = Some m0 \<longrightarrow>
             m = m0 \<and> mutexes d1 = mutexes d \<and> heap_next d1 = heap_next d"
    using c by auto
  have "map_of (mutexes d2) collection = Some m"
    using calls_keep [OF assms(2), of collection m] 1 by blast
  then have 3: "fst (getOrCreateMutex d2 collection) = m"
    by (simp add: getOrCreateMutex_def emit_def)
  have 4: "\<forall>c m'. map_of (mutexes d) c = Some m' \<longrightarrow> map_of (mutexes d2) c = Some m'"
    using calls_keep [OF assms(2)] getOrCreateMutex_keeps [OF assms(1)] by blast
  have 5: "events d1 = events d @ [GlobalLock, RegistryGet collection, GlobalUnlock]
            \<or> events d1 = events d @ [GlobalLock, RegistryGet collection,
                                       RegistryPut collection m, GlobalUnlock]"
    using c by auto
  have 6: "under_lock False (events d2) = Some False"
    using calls_keep [OF assms(2), of collection m] getOrCreateMutex_under_lock [OF assms(1) assms(3)]
    by blast
  from 1 2 3 4 5 6 show ?thesis by (intro conjI)
qed


theorem lock_registry_memoized_witness:
  "fst (getOrCreateMutex
         (fst (foldl (apply_call line_marshal) (snd (getOrCreateMutex db_driver ''users''), empty_db)
                [CallWrite ''orders'' ''o1'' ''x'', CallDelete ''users'' [], CallLookup ''orders'']))
         ''users'')
     = fst (getOrCreateMutex db_driver ''users'')
   \<and> under_lock False
        (events (fst (foldl (apply_call line_marshal) (snd (getOrCreateMutex db_driver ''users''), empty_db)
                [CallWrite ''orders'' ''o1'' ''x'', CallDelete ''users'' [], CallLookup ''orders''])))
       = Some False"
proof -
  let ?calls = "[CallWrite ''orders'' ''o1'' ''x'', CallDelete ''users'' [], CallLookup ''orders'']"
  let ?r = "foldl (apply_call line_marshal) (snd (getOrCreateMutex db_driver ''users''), empty_db) ?calls"
  have 1: "getOrCreateMutex db_driver ''users''
             = (fst (getOrCreateMutex db_driver ''users''), snd (getOrCreateMutex db_driver ''users''))"
    by simp
  have 2: "?r = (fst ?r, snd ?r)" by simp
  have 3: "under_lock False (events db_driver) = Some False" by (simp add: db_driver_def)
  from lock_registry_memoized [OF 1 2 3] show ?thesis by blast
qed

subsection \<open>Nodes of the file system\<close>

lemma lookup_store: "lookup (store p n fs) q = (if q = p then Some n else lookup fs q)"
  by (simp add: lookup_def store_def update_conv')

lemma map_of_filter_keys:
  "map_of (filter (\<lambda>(k, n). \<not> P k) xs) q = (if P q then None else map_of xs q)"
  by (induction xs) auto

lemma lookup_discard: "lookup (discard P fs) q = (if P q then None else lookup fs q)"
  by (simp add: lookup_def discard_def map_of_filter_keys)

lemma cwd_store [simp]: "cwd (store p n fs) = cwd fs"
  by (simp add: store_def)

lemma cwd_discard [simp]: "cwd (discard P fs) = cwd fs"
  by (simp add: discard_def)

lemma free_space_store [simp]: "free_space (store p n fs) = free_space fs"
  by (simp add: store_def)

lemma Mkdir_cases:
  "os_Mkdir fs name = (res, fs') \<Longrightarrow>
     (res \<noteq> None \<and> fs' = fs)
   \<or> (\<exists>p. res = None \<and> resolve fs (trim_separators name) = Inr p \<and> lookup fs p = None
          \<and> fs' = store p (Dir True) fs)"
  by (auto simp: os_Mkdir_def split: sum.splits option.splits)

lemma Mkdir_creates:
  "resolve fs (trim_separators name) = Inr p \<Longrightarrow> lookup fs p = None \<Longrightarrow>
   os_Mkdir fs name = (None, store p (Dir True) fs)"
  by (simp add: os_Mkdir_def)

subsection \<open>Cleaned paths\<close>

lemma split_path_sep_free: "e \<in> set (split_path s) \<Longrightarrow> Separator \<notin> set e"
proof (induction s arbitrary: e)
  case Nil
  then show ?case by simp
next
  case (Cons c s)
  show ?case
  proof (cases "c = Separator")
    case True
    with Cons show ?thesis by auto
  next
    case False
    show ?thesis
    proof (cases "split_path s")
      case Nil
      with Cons.prems False show ?thesis by auto
    next
      case (Cons x xs)
      with Cons.prems False have "e = c # x \<or> e \<in> set xs" by auto
      moreover have "Separator \<notin> set x" "\<And>y. y \<in> set xs \<Longrightarrow> Separator \<notin> set y"
        using Cons.IH Cons by auto
      ultimately show ?thesis using False by auto
    qed
  qed
qed

lemma clean_step_elements:
  "\<forall>e \<in> set out. element e \<Longrightarrow> Separator \<notin> set x \<Longrightarrow> \<forall>e \<in> set (clean_step rooted out x). element e"
  by (auto simp: clean_step_def element_def Separator_def dest: in_set_butlastD)

lemma foldl_clean_step_elements:
  "\<forall>e \<in> set out. element e \<Longrightarrow> \<forall>x \<in> set xs. Separator \<notin> set x \<Longrightarrow>
   \<forall>e \<in> set (foldl (clean_step rooted) out xs). element e"
proof (induction xs arbitrary: out)
  case Nil
  then show ?case by simp
next
  case (Cons x xs)
  from Cons.prems have "\<forall>e \<in> set (clean_step rooted out x). element e"
    by (intro clean_step_elements) auto
  with Cons show ?case by simp
qed

lemma no_double_element_prefix:
  "Separator \<notin> set e \<Longrightarrow> no_double_separator t \<Longrightarrow> no_double_separator (e @ t)"
proof (induction e)
  case Nil
  then show ?case by simp
next
  case (Cons a e)
  then have "no_double_separator (e @ t)" by simp
  with Cons.prems(1) show ?case by (cases "e @ t") auto
qed

lemma strings_Join_elements:
  "\<forall>e \<in> set out. element e \<Longrightarrow>
   no_double_separator (strings_Join out) \<and> (out \<noteq> [] \<longrightarrow> strings_Join out \<noteq> [] \<and> hd (strings_Join out) \<noteq> Separator)"
proof (induction out rule: strings_Join.induct)
  case 1
  then show ?case by simp
next
  case (2 e)
  then have "Separator \<notin> set e" "e \<noteq> []" by (auto simp: element_def)
  with no_double_element_prefix [of e "[]"] show ?case by (cases e) auto
next
  case (3 e v va)
  then have e: "Separator \<notin> set e" "e \<noteq> []" by (auto simp: element_def)
  from 3 have IH: "no_double_separator (strings_Join (v # va))"
    "strings_Join (v # va) \<noteq> []" "hd (strings_Join (v # va)) \<noteq> Separator" by auto
  then have "no_double_separator (Separator # strings_Join (v # va))"
    by (cases "strings_Join (v # va)") auto
  with no_double_element_prefix [OF e(1)] have "no_double_separator (e @ Separator # strings_Join (v # va))"
    by blast
  with e show ?case by (cases e) auto
qed

lemma filepath_Clean_no_double: "no_double_separator (filepath_Clean path)"
proof (cases "path = []")
  case True
  then show ?thesis by (simp add: filepath_Clean_def Separator_def)
next
  case False
  let ?out = "foldl (clean_step (hd path = Separator)) [] (split_path path)"
  have "\<forall>e \<in> set ?out. element e"
    by (rule foldl_clean_step_elements) (auto dest: split_path_sep_free)
  from strings_Join_elements [OF this]
  have j: "no_double_separator (strings_Join ?out)"
    "?out \<noteq> [] \<longrightarrow> strings_Join ?out \<noteq> [] \<and> hd (strings_Join ?out) \<noteq> Separator" by auto
  have r: "no_double_separator (Separator # strings_Join ?out)"
  proof (cases "?out = []")
    case True
    then show ?thesis by simp
  next
    case False
    with j show ?thesis by (cases "strings_Join ?out") auto
  qed
  show ?thesis
  proof (cases "hd path = Separator")
    case True
    with False r show ?thesis by (simp add: filepath_Clean_def Let_def)
  next
    case rel: False
    with False j show ?thesis by (simp add: filepath_Clean_def Let_def Separator_def)
  qed
qed

lemma strings_Join_last:
  "\<forall>e \<in> set out. element e \<Longrightarrow> out \<noteq> [] \<Longrightarrow> last (strings_Join out) \<noteq> Separator"
proof (induction out rule: strings_Join.induct)
  case 1
  then show ?case by simp
next
  case (2 e)
  then have "e \<noteq> []" "Separator \<notin> set e" by (auto simp: element_def)
  then show ?case by (metis last_in_set strings_Join.simps(2))
next
  case (3 e v va)
  then have "last (strings_Join (v # va)) \<noteq> Separator" by simp
  moreover have "strings_Join (v # va) \<noteq> []"
    using strings_Join_elements [of "v # va"] 3 by simp
  ultimately show ?case by simp
qed

lemma trim_separators_id: "s \<noteq> [] \<Longrightarrow> last s \<noteq> Separator \<Longrightarrow> trim_separators s = s"
proof -
  assume ne: "s \<noteq> []" and l: "last s \<noteq> Separator"
  then have "hd (rev s) \<noteq> Separator" by (simp add: hd_rev)
  with ne have "dropWhile (\<lambda>c. c = Separator) (rev s) = rev s" by (cases "rev s") auto
  with ne show ?thesis by (simp add: trim_separators_def)
qed

lemma trim_separators_Clean: "trim_separators (filepath_Clean path) = filepath_Clean path"
proof -
  let ?out = "foldl (clean_step (hd path = Separator)) [] (split_path path)"
  have dot: "trim_separators ''.'' = ''.''"
    by (rule trim_separators_id) (simp_all add: Separator_def)
  have root: "trim_separators [Separator] = [Separator]"
    by (simp add: trim_separators_def)
  have el: "\<forall>e \<in> set ?out. element e"
    by (rule foldl_clean_step_elements) (auto dest: split_path_sep_free)
  have j: "?out \<noteq> [] \<Longrightarrow> trim_separators (strings_Join ?out) = strings_Join ?out
            \<and> trim_separators (Separator # strings_Join ?out) = Separator # strings_Join ?out"
  proof -
    assume ne: "?out \<noteq> []"
    from strings_Join_last [OF el ne] strings_Join_elements [OF el] ne
    have "strings_Join ?out \<noteq> []" "last (strings_Join ?out) \<noteq> Separator" by blast+
    then show ?thesis by (simp add: trim_separators_id)
  qed
  consider (empty) "path = []"
    | (rooted_root) "path \<noteq> []" "hd path = Separator" "?out = []"
    | (rooted) "path \<noteq> []" "hd path = Separator" "?out \<noteq> []"
    | (dot) "path \<noteq> []" "hd path \<noteq> Separator" "?out = []"
    | (relative) "path \<noteq> []" "hd path \<noteq> Separator" "?out \<noteq> []"
    by blast
  then show ?thesis
  proof cases
    case empty
    then have "filepath_Clean path = ''.''" by (simp add: filepath_Clean_def)
    with dot show ?thesis by simp
  next
    case rooted_root
    then have "filepath_Clean path = [Separator]" by (simp add: filepath_Clean_def Let_def)
    with root show ?thesis by simp
  next
    case rooted
    then have "filepath_Clean path = Separator # strings_Join ?out"
      by (simp add: filepath_Clean_def Let_def)
    with j [OF rooted(3)] show ?thesis by simp
  next
    case dot
    then have "filepath_Clean path = ''.''" by (simp add: filepath_Clean_def Let_def)
    with \<open>trim_separators ''.'' = ''.''\<close> show ?thesis by simp
  next
    case relative
    then have "filepath_Clean path = strings_Join ?out" by (simp add: filepath_Clean_def Let_def)
    with j [OF relative(3)] show ?thesis by simp
  qed
qed

subsection \<open>Resolution of paths\<close>

lemma split_path_nonempty [simp]: "split_path s \<noteq> []"
  by (cases s) (auto split: list.splits)

lemma split_path_append:
  "Separator \<notin> set t \<Longrightarrow> split_path (s @ t) = butlast (split_path s) @ [last (split_path s) @ t]"
proof (induction s)
  case Nil
  then show ?case
  proof (induction t)
    case Nil
    then show ?case by simp
  next
    case (Cons a t)
    then show ?case by (cases "split_path t") auto
  qed
next
  case (Cons c s)
  then have IH: "split_path (s @ t) = butlast (split_path s) @ [last (split_path s) @ t]" by simp
  show ?case
  proof (cases "c = Separator")
    case True
    with IH show ?thesis by simp
  next
    case False
    show ?thesis
    proof (cases "split_path s")
      case Nil
      then show ?thesis by simp
    next
      case (Cons x xs)
      with IH False show ?thesis by (cases xs) auto
    qed
  qed
qed


lemma lex_walk_append: "lex_walk cur (cs @ ds) = lex_walk (lex_walk cur cs) ds"
  by (induction cs arbitrary: cur) auto

lemma walk_lex: "walk fs cur cs = Inr p \<Longrightarrow> p = lex_walk cur cs"
  by (induction cs arbitrary: cur) (auto split: option.splits node.splits if_splits)

lemma resolve_location: "resolve fs name = Inr p \<Longrightarrow> p = location fs name"
  by (auto simp: resolve_def location_def dest: walk_lex split: if_splits)

lemma location_cwd: "cwd fs' = cwd fs \<Longrightarrow> location fs' name = location fs name"
  by (simp add: location_def)

lemma lex_walk_last_tmp: "lex_walk cur [l @ ''.tmp''] = cur @ [l @ ''.tmp'']"
  by (cases l) auto

lemma lex_walk_last_json: "lex_walk cur [l @ ''.json''] = cur @ [l @ ''.json'']"
  by (cases l) auto

lemma lex_walk_single: "lex_walk cur [l] = cur \<or> lex_walk cur [l] = butlast cur \<or> lex_walk cur [l] = cur @ [l]"
  by auto

lemma location_tmp_differs:
  assumes "s \<noteq> []"
  shows "location fs (s @ ''.tmp'') \<noteq> location fs s"
proof -
  let ?st = "if hd s = Separator then [] else cwd fs"
  let ?cs = "butlast (split_path s)" and ?l = "last (split_path s)"
  have sp: "split_path s = ?cs @ [?l]" by simp
  have spt: "split_path (s @ ''.tmp'') = ?cs @ [?l @ ''.tmp'']"
    by (rule split_path_append) (simp add: Separator_def)
  have hd: "hd (s @ ''.tmp'') = hd s" using assms by simp
  let ?D = "lex_walk ?st ?cs"
  have a: "location fs (s @ ''.tmp'') = ?D @ [?l @ ''.tmp'']"
    unfolding location_def hd spt lex_walk_append lex_walk_last_tmp ..
  have "location fs s = lex_walk ?D [?l]"
    unfolding location_def by (subst sp) (simp only: lex_walk_append)
  with lex_walk_single [of ?D ?l]
  have b: "location fs s = ?D \<or> location fs s = butlast ?D \<or> location fs s = ?D @ [?l]" by simp
  have "?D @ [?l @ ''.tmp''] \<noteq> ?D" "?D @ [?l @ ''.tmp''] \<noteq> ?D @ [?l]" by simp_all
  moreover have "?D @ [?l @ ''.tmp''] \<noteq> butlast ?D"
  proof
    assume "?D @ [?l @ ''.tmp''] = butlast ?D"
    then have "length (?D @ [?l @ ''.tmp'']) = length (butlast ?D)" by simp
    then show False by simp
  qed
  ultimately show ?thesis using a b by metis
qed

lemma filepath_Clean_nonempty: "filepath_Clean path \<noteq> []"
proof (cases "path = []")
  case True
  then show ?thesis by (simp add: filepath_Clean_def)
next
  case False
  let ?out = "foldl (clean_step (hd path = Separator)) [] (split_path path)"
  have "\<forall>e \<in> set ?out. element e"
    by (rule foldl_clean_step_elements) (auto dest: split_path_sep_free)
  from strings_Join_elements [OF this] have "?out \<noteq> [] \<longrightarrow> strings_Join ?out \<noteq> []" by simp
  then show ?thesis using False by (auto simp: filepath_Clean_def Let_def)
qed

lemma filepath_Join_nonempty: "e \<noteq> [] \<Longrightarrow> filepath_Join [a, e] \<noteq> []"
  by (auto simp: filepath_Join_def filepath_Clean_nonempty)

lemma filepath_Join3_nonempty: "e \<noteq> [] \<Longrightarrow> filepath_Join [a, b, e] \<noteq> []"
  by (auto simp: filepath_Join_def filepath_Clean_nonempty)

subsection \<open>What the file operations leave alone\<close>

lemma file_at_store_Dir:
  "lookup fs p = None \<Longrightarrow> file_at (store p (Dir x) fs) k = file_at fs k"
  by (auto simp: file_at_def lookup_store)

lemma Mkdir_frame:
  "os_Mkdir fs name = (res, fs') \<Longrightarrow> cwd fs' = cwd fs \<and> (\<forall>k. file_at fs' k = file_at fs k)"
  by (drule Mkdir_cases) (auto simp: file_at_store_Dir)

lemma MkdirAll_frame:
  "cwd (snd (os_MkdirAll fs path)) = cwd fs \<and> (\<forall>k. file_at (snd (os_MkdirAll fs path)) k = file_at fs k)"
proof (induction fs path rule: os_MkdirAll.induct)
  case (1 fs path)
  show ?case
  proof (cases "os_Stat fs path")
    case (Inr fi)
    then show ?thesis by (subst os_MkdirAll.simps, cases fi; simp)+
  next
    case (Inl err0)
    let ?par = "if 1 < element_start path
                then os_MkdirAll fs (take (element_start path - 1) path) else (None, fs)"
    have par: "cwd (snd ?par) = cwd fs \<and> (\<forall>k. file_at (snd ?par) k = file_at fs k)"
    proof (cases "1 < element_start path")
      case True
      then have "?par = os_MkdirAll fs (take (element_start path - 1) path)"
        by (simp del: os_MkdirAll.simps)
      with 1 [OF Inl True] show ?thesis by (simp del: os_MkdirAll.simps)
    next
      case False
      then show ?thesis by (simp del: os_MkdirAll.simps)
    qed
    obtain r1 fs1 where p: "?par = (r1, fs1)" by (cases ?par)
    with par have f1: "cwd fs1 = cwd fs" "\<And>k. file_at fs1 k = file_at fs k"
      by (auto simp del: os_MkdirAll.simps)
    show ?thesis
    proof (cases r1)
      case (Some e)
      with Inl p have "os_MkdirAll fs path = (Some e, fs1)"
        by (subst os_MkdirAll.simps) (simp del: os_MkdirAll.simps)
      with f1 show ?thesis by (simp del: os_MkdirAll.simps)
    next
      case None
      obtain r2 fs2 where m: "os_Mkdir fs1 path = (r2, fs2)" by (cases "os_Mkdir fs1 path")
      from Mkdir_frame [OF m] f1 have f2: "cwd fs2 = cwd fs" "\<And>k. file_at fs2 k = file_at fs k" by auto
      have "snd (os_MkdirAll fs path) = fs2"
        using Inl p None m
        by (subst os_MkdirAll.simps)
           (simp del: os_MkdirAll.simps split: option.splits sum.splits FileMode.splits)
      with f2 show ?thesis by (simp del: os_MkdirAll.simps)
    qed
  qed
qed

lemma WriteFile_frame:
  "ioutil_WriteFile fs name data = (res, fs') \<Longrightarrow>
   cwd fs' = cwd fs \<and> (\<forall>k. k \<noteq> location fs name \<longrightarrow> lookup fs' k = lookup fs k)"
  by (auto simp: ioutil_WriteFile_def lookup_store dest: resolve_location
           split: sum.splits option.splits node.splits if_splits)

lemma WriteFile_success:
  "ioutil_WriteFile fs name data = (None, fs') \<Longrightarrow>
   resolve fs name = Inr (location fs name) \<and> fs' = store (location fs name) (File data) fs
   \<and> (\<forall>x. lookup fs (location fs name) \<noteq> Some (Dir x))"
  by (auto simp: ioutil_WriteFile_def dest: resolve_location
           split: sum.splits option.splits node.splits if_splits)

lemma syscall_Rename_failure: "syscall_Rename fs old new = (Some e, fs') \<Longrightarrow> fs' = fs"
  by (auto simp: syscall_Rename_def split: sum.splits prod.splits option.splits node.splits if_splits)

lemma Rename_failure:
  assumes "os_Rename fs old new = (Some e, fs')"
  shows "fs' = fs"
proof -
  obtain r f where c: "syscall_Rename fs old new = (r, f)" by (cases "syscall_Rename fs old new")
  have cf: "r \<noteq> None \<Longrightarrow> f = fs" using syscall_Rename_failure c by auto
  show ?thesis
  proof (cases r)
    case None
    with assms c show ?thesis
      by (auto simp: os_Rename_def Let_def split: sum.splits prod.splits node.splits if_splits)
  next
    case (Some e0)
    with cf have "f = fs" by simp
    with assms c Some show ?thesis
      by (auto simp: os_Rename_def Let_def split: sum.splits prod.splits node.splits if_splits)
  qed
qed

lemma locate_resolve:
  "locate fs name = Inr (p, n) \<longleftrightarrow> resolve fs name = Inr p \<and> lookup fs p = Some n"
  by (auto simp: locate_def split: sum.splits option.splits)

lemma Rename_file_success:
  assumes "os_Rename fs old new = (None, fs')"
    and "resolve fs old = Inr po" and "lookup fs po = Some (File b)"
    and "location fs new \<noteq> po"
  shows "resolve fs new = Inr (location fs new)
       \<and> (\<forall>y. lookup fs (location fs new) \<noteq> Some (Dir y))
       \<and> fs' = store (location fs new) (File b) (discard (\<lambda>k. k = po) fs)"
proof -
  have lo: "locate fs old = Inr (po, File b)" using assms(2,3) by (simp add: locate_resolve)
  have nd: "\<And>pn y. locate fs new \<noteq> Inr (pn, Dir y)"
  proof
    fix pn y
    assume l: "locate fs new = Inr (pn, Dir y)"
    then have "pn = location fs new" by (auto simp: locate_resolve dest: resolve_location)
    with assms(4) have "po \<noteq> pn" by simp
    with assms(1) l lo show False by (simp add: os_Rename_def Let_def)
  qed
  have call: "syscall_Rename fs old new = (None, fs')"
  proof (cases "locate fs new")
    case (Inl e)
    with assms(1) show ?thesis
      by (cases "syscall_Rename fs old new") (auto simp: os_Rename_def Let_def split: option.splits)
  next
    case (Inr pr)
    obtain pn n where pr: "pr = (pn, n)" by (cases pr)
    with Inr nd obtain c where "n = File c" by (cases n) auto
    with Inr pr assms(1) show ?thesis
      by (cases "syscall_Rename fs old new") (auto simp: os_Rename_def Let_def split: option.splits)
  qed
  from call lo obtain pn where pn: "resolve fs new = Inr pn"
    by (cases "resolve fs new") (auto simp: syscall_Rename_def)
  then have pn_eq: "pn = location fs new" by (rule resolve_location)
  with assms(4) have ne: "po \<noteq> pn" by simp
  have nd': "\<And>y. lookup fs pn \<noteq> Some (Dir y)"
    using nd [of pn] pn by (auto simp: locate_resolve)
  from call lo pn ne nd' have "fs' = store pn (File b) (discard (\<lambda>k. k = po) fs)"
    by (auto simp: syscall_Rename_def split: option.splits node.splits)
  with pn nd' pn_eq show ?thesis by simp
qed

subsection \<open>Write\<close>

lemma walk_dirs_kept:
  "(\<And>k x. lookup fs k = Some (Dir x) \<Longrightarrow> lookup fs' k = Some (Dir x)) \<Longrightarrow>
   walk fs cur cs = Inr p \<Longrightarrow> walk fs' cur cs = Inr p"
proof (induction cs arbitrary: cur)
  case Nil
  then show ?case by simp
next
  case (Cons c cs)
  from Cons.prems(2) obtain x where x: "lookup fs cur = Some (Dir x)"
    by (auto split: option.splits node.splits)
  then have x': "lookup fs' cur = Some (Dir x)" by (rule Cons.prems(1))
  show ?case using Cons.prems(2) Cons.IH [OF Cons.prems(1)] x x'
    by (auto split: if_splits)
qed

lemma resolve_dirs_kept:
  "(\<And>k x. lookup fs k = Some (Dir x) \<Longrightarrow> lookup fs' k = Some (Dir x)) \<Longrightarrow> cwd fs' = cwd fs \<Longrightarrow>
   resolve fs name = Inr p \<Longrightarrow> resolve fs' name = Inr p"
  by (auto simp: resolve_def split: if_splits intro: walk_dirs_kept)

lemma Write_locked_error:
  assumes "Write_locked marshal root fs collection resource v = (Some err, fs')"
  shows "file_at fs' (location fs (filepath_Join [filepath_Join [root, collection], resource @ ''.json'']))
       = file_at fs (location fs (filepath_Join [filepath_Join [root, collection], resource @ ''.json'']))"
proof -
  let ?dir = "filepath_Join [root, collection]"
  let ?fnl = "filepath_Join [?dir, resource @ ''.json'']"
  let ?tmp = "?fnl @ ''.tmp''"
  have ne: "?fnl \<noteq> []" by (rule filepath_Join_nonempty) simp
  obtain r1 fs1 where m: "os_MkdirAll fs ?dir = (r1, fs1)" by (cases "os_MkdirAll fs ?dir")
  from MkdirAll_frame [of fs ?dir] m
  have f1: "cwd fs1 = cwd fs" "\<And>k. file_at fs1 k = file_at fs k" by auto
  show ?thesis
  proof (cases r1)
    case (Some e)
    with assms m have "fs' = fs1" by (simp add: Write_locked_def Let_def)
    with f1 show ?thesis by simp
  next
    case None
    show ?thesis
    proof (cases "marshal v")
      case (Inl e)
      with assms m None have "fs' = fs1" by (simp add: Write_locked_def Let_def)
      with f1 show ?thesis by simp
    next
      case (Inr b)
      obtain r2 fs2 where w: "ioutil_WriteFile fs1 ?tmp (b @ [newline]) = (r2, fs2)"
        by (cases "ioutil_WriteFile fs1 ?tmp (b @ [newline])")
      have "location fs1 ?fnl \<noteq> location fs1 ?tmp"
        using location_tmp_differs [OF ne, of fs1] by simp
      with WriteFile_frame [OF w] have "lookup fs2 (location fs1 ?fnl) = lookup fs1 (location fs1 ?fnl)"
        by blast
      then have f2: "file_at fs2 (location fs ?fnl) = file_at fs (location fs ?fnl)"
        using f1 by (simp add: file_at_def location_cwd [OF f1(1)])
      show ?thesis
      proof (cases r2)
        case (Some e)
        with assms m None Inr w have "fs' = fs2" by (simp add: Write_locked_def Let_def)
        with f2 show ?thesis by simp
      next
        case n2: None
        with assms m None Inr w have "os_Rename fs2 ?tmp ?fnl = (Some err, fs')"
          by (simp add: Write_locked_def Let_def)
        from Rename_failure [OF this] f2 show ?thesis by simp
      qed
    qed
  qed
qed

lemma Write_locked_success:
  assumes "Write_locked marshal root fs collection resource v = (None, fs')"
  shows "\<exists>b. marshal v = Inr b
       \<and> file_at fs' (location fs (filepath_Join [filepath_Join [root, collection], resource @ ''.json'']))
           = Some (b @ [newline])
       \<and> resolve fs' (filepath_Join [filepath_Join [root, collection], resource @ ''.json''])
           = Inr (location fs (filepath_Join [filepath_Join [root, collection], resource @ ''.json'']))
       \<and> cwd fs' = cwd fs"
proof -
  let ?dir = "filepath_Join [root, collection]"
  let ?fnl = "filepath_Join [?dir, resource @ ''.json'']"
  let ?tmp = "?fnl @ ''.tmp''"
  have ne: "?fnl \<noteq> []" by (rule filepath_Join_nonempty) simp
  obtain r1 fs1 where m: "os_MkdirAll fs ?dir = (r1, fs1)" by (cases "os_MkdirAll fs ?dir")
  from MkdirAll_frame [of fs ?dir] m have f1: "cwd fs1 = cwd fs" by auto
  from assms m have r1: "r1 = None" by (cases r1) (auto simp: Write_locked_def Let_def)
  from assms m r1 obtain b where b: "marshal v = Inr b"
    by (cases "marshal v") (auto simp: Write_locked_def Let_def)
  let ?data = "b @ [newline]"
  obtain r2 fs2 where w: "ioutil_WriteFile fs1 ?tmp ?data = (r2, fs2)"
    by (cases "ioutil_WriteFile fs1 ?tmp ?data")
  from assms m r1 b w have r2: "r2 = None" by (cases r2) (auto simp: Write_locked_def Let_def)
  from assms m r1 b w r2 have rn: "os_Rename fs2 ?tmp ?fnl = (None, fs')"
    by (simp add: Write_locked_def Let_def)
  let ?pt = "location fs1 ?tmp" and ?pn = "location fs1 ?fnl"
  from WriteFile_success [OF w [unfolded r2]]
  have fs2: "fs2 = store ?pt (File ?data) fs1" by simp
  then have c2: "cwd fs2 = cwd fs1" by simp
  have pt2: "lookup fs2 ?pt = Some (File ?data)" by (simp add: fs2 lookup_store)
  have ne_p: "?pt \<noteq> ?pn" using location_tmp_differs [OF ne, of fs1] by simp
  have ro: "resolve fs2 ?tmp = Inr ?pt"
  proof (rule resolve_dirs_kept [of fs1])
    show "resolve fs1 ?tmp = Inr ?pt" using WriteFile_success [OF w [unfolded r2]] by simp
    show "cwd fs2 = cwd fs1" by (rule c2)
    fix k x
    assume "lookup fs1 k = Some (Dir x)"
    moreover from this have "k \<noteq> ?pt" using WriteFile_success [OF w [unfolded r2]] by auto
    ultimately show "lookup fs2 k = Some (Dir x)" by (simp add: fs2 lookup_store)
  qed
  have ne2: "location fs2 ?fnl \<noteq> ?pt" using ne_p location_cwd [OF c2] by simp
  from Rename_file_success [OF rn ro pt2 ne2]
  have pn: "resolve fs2 ?fnl = Inr ?pn"
    and nd: "\<And>y. lookup fs2 ?pn \<noteq> Some (Dir y)"
    and fs': "fs' = store ?pn (File ?data) (discard (\<lambda>k. k = ?pt) fs2)"
    by (simp_all add: location_cwd [OF c2])
  have pn_eq: "?pn = ?pn" ..
  have c': "cwd fs' = cwd fs" by (simp add: fs' c2 f1)
  have l': "lookup fs' ?pn = Some (File ?data)" by (simp add: fs' lookup_store)
  have dirs: "\<And>k x. lookup fs2 k = Some (Dir x) \<Longrightarrow> lookup fs' k = Some (Dir x)"
    using nd pt2 by (auto simp: fs' lookup_store lookup_discard)
  have "resolve fs' ?fnl = Inr ?pn"
    using resolve_dirs_kept [OF dirs _ pn] c' c2 f1 pn_eq by simp
  with b l' c' show ?thesis by (simp add: file_at_def location_cwd [OF f1])
qed

lemma Write_parts:
  "Write marshal d fs collection resource v = (res, d', fs') \<Longrightarrow> collection \<noteq> [] \<Longrightarrow> resource \<noteq> [] \<Longrightarrow>
   Write_locked marshal (dir d) fs collection resource v = (res, fs') \<and> dir d' = dir d"
  using getOrCreateMutex_dir [of d collection]
  by (auto simp: Write_def emit_def split: prod.splits)

text \<open>
  C3. \<open>Write\<close> makes the collection directory with every missing directory above it,
  writes the serialized bytes to the temporary path, the final path with the suffix
  \<open>.tmp\<close>, which lies in the same directory, and then renames it to the final path. In
  consequence, when \<open>Write\<close> returns an error, the place of the final path holds the
  document it held before, or still holds none; when \<open>Write\<close> succeeds, it holds the
  complete new document. (A write that runs out of space leaves its partial bytes in
  the temporary file only.)
\<close>

theorem Write_atomic:
  assumes "Write marshal d fs collection resource v = (res, d', fs')"
  shows "(\<forall>err. res = Some err \<longrightarrow>
            file_at fs' (location fs (filepath_Join [filepath_Join [dir d, collection], resource @ ''.json'']))
              = file_at fs (location fs (filepath_Join [filepath_Join [dir d, collection], resource @ ''.json''])))
       \<and> (res = None \<longrightarrow>
            (\<exists>b. marshal v = Inr b
               \<and> file_at fs' (location fs (filepath_Join [filepath_Join [dir d, collection], resource @ ''.json'']))
                   = Some (b @ [newline])))
       \<and> butlast (split_path (filepath_Join [filepath_Join [dir d, collection], resource @ ''.json''] @ ''.tmp''))
           = butlast (split_path (filepath_Join [filepath_Join [dir d, collection], resource @ ''.json'']))
       \<and> (\<forall>fs1 b. collection \<noteq> [] \<longrightarrow> resource \<noteq> [] \<longrightarrow>
            os_MkdirAll fs (filepath_Join [dir d, collection]) = (None, fs1) \<longrightarrow> marshal v = Inr b \<longrightarrow>
            (res, fs')
              = (case ioutil_WriteFile fs1
                        (filepath_Join [filepath_Join [dir d, collection], resource @ ''.json''] @ ''.tmp'')
                        (b @ [newline]) of
                   (Some e, fs2) \<Rightarrow> (Some e, fs2)
                 | (None, fs2) \<Rightarrow>
                     os_Rename fs2
                       (filepath_Join [filepath_Join [dir d, collection], resource @ ''.json''] @ ''.tmp'')
                       (filepath_Join [filepath_Join [dir d, collection], resource @ ''.json''])))"
proof -
  let ?fnl = "filepath_Join [filepath_Join [dir d, collection], resource @ ''.json'']"
  have 1: "\<forall>err. res = Some err \<longrightarrow> file_at fs' (location fs ?fnl) = file_at fs (location fs ?fnl)"
  proof (cases "collection = [] \<or> resource = []")
    case True
    with assms have "fs' = fs" by (auto simp: Write_def split: if_splits)
    then show ?thesis by simp
  next
    case False
    with Write_parts [OF assms] have "Write_locked marshal (dir d) fs collection resource v = (res, fs')"
      by simp
    then show ?thesis by (auto dest: Write_locked_error)
  qed
  have 2: "res = None \<longrightarrow>
            (\<exists>b. marshal v = Inr b \<and> file_at fs' (location fs ?fnl) = Some (b @ [newline]))"
  proof (cases "collection = [] \<or> resource = []")
    case True
    with assms have "res \<noteq> None" by (auto simp: Write_def split: if_splits)
    then show ?thesis by blast
  next
    case False
    with Write_parts [OF assms] have "Write_locked marshal (dir d) fs collection resource v = (res, fs')"
      by simp
    then show ?thesis by (auto dest: Write_locked_success)
  qed
  have 3: "butlast (split_path (?fnl @ ''.tmp'')) = butlast (split_path ?fnl)"
    by (subst split_path_append) (simp_all add: Separator_def)
  have 4: "\<forall>fs1 b. collection \<noteq> [] \<longrightarrow> resource \<noteq> [] \<longrightarrow>
            os_MkdirAll fs (filepath_Join [dir d, collection]) = (None, fs1) \<longrightarrow> marshal v = Inr b \<longrightarrow>
            (res, fs')
              = (case ioutil_WriteFile fs1 (?fnl @ ''.tmp'') (b @ [newline]) of
                   (Some e, fs2) \<Rightarrow> (Some e, fs2)
                 | (None, fs2) \<Rightarrow> os_Rename fs2 (?fnl @ ''.tmp'') ?fnl)"
  proof (intro allI impI)
    fix fs1 b
    assume c: "collection \<noteq> []" and r: "resource \<noteq> []"
      and m: "os_MkdirAll fs (filepath_Join [dir d, collection]) = (None, fs1)" and b: "marshal v = Inr b"
    from Write_parts [OF assms c r]
    have "Write_locked marshal (dir d) fs collection resource v = (res, fs')" by simp
    then show "(res, fs')
              = (case ioutil_WriteFile fs1 (?fnl @ ''.tmp'') (b @ [newline]) of
                   (Some e, fs2) \<Rightarrow> (Some e, fs2)
                 | (None, fs2) \<Rightarrow> os_Rename fs2 (?fnl @ ''.tmp'') ?fnl)"
      using m b by (simp add: Write_locked_def Let_def split: prod.splits option.splits)
  qed
  from 1 2 3 4 show ?thesis by (intro conjI)
qed

theorem Write_atomic_witness:
  "fst (Write line_marshal db_driver small_db ''users'' ''John'' ''goodbye'')
     = Some (PathError ''write'' ''db/users/John.json.tmp'' ENOSPC)
   \<and> file_at (snd (snd (Write line_marshal db_driver small_db ''users'' ''John'' ''goodbye'')))
        [''db'', ''users'', ''John.json''] = Some ''hello''
   \<and> file_at (snd (snd (Write line_marshal db_driver small_db ''users'' ''John'' ''goodbye'')))
        [''db'', ''users'', ''John.json.tmp''] = Some ''goo''
   \<and> fst (Write line_marshal db_driver john_db ''users'' ''John'' ''goodbye'') = None
   \<and> file_at (snd (snd (Write line_marshal db_driver john_db ''users'' ''John'' ''goodbye'')))
        [''db'', ''users'', ''John.json''] = Some (''goodbye'' @ [newline])
   \<and> fst (Write line_marshal db_driver blank_disk ''shop/orders'' ''o1'' ''tea'') = None
   \<and> file_at (snd (snd (Write line_marshal db_driver blank_disk ''shop/orders'' ''o1'' ''tea'')))
        [''db'', ''shop'', ''orders'', ''o1.json''] = Some (''tea'' @ [newline])"
proof -
  let ?W = "Write line_marshal db_driver small_db ''users'' ''John'' ''goodbye''"
  let ?V = "Write line_marshal db_driver john_db ''users'' ''John'' ''goodbye''"
  let ?U = "Write line_marshal db_driver blank_disk ''shop/orders'' ''o1'' ''tea''"
  have ev: "fst ?W = Some (PathError ''write'' ''db/users/John.json.tmp'' ENOSPC)
      \<and> location small_db (filepath_Join [filepath_Join [dir db_driver, ''users''], ''John'' @ ''.json''])
          = [''db'', ''users'', ''John.json'']
      \<and> location john_db (filepath_Join [filepath_Join [dir db_driver, ''users''], ''John'' @ ''.json''])
          = [''db'', ''users'', ''John.json'']
      \<and> location blank_disk (filepath_Join [filepath_Join [dir db_driver, ''shop/orders''], ''o1'' @ ''.json''])
          = [''db'', ''shop'', ''orders'', ''o1.json'']
      \<and> file_at small_db [''db'', ''users'', ''John.json''] = Some ''hello''
      \<and> file_at (snd (snd ?W)) [''db'', ''users'', ''John.json.tmp''] = Some ''goo''
      \<and> fst ?V = None
      \<and> fst ?U = None
      \<and> line_marshal ''goodbye'' = Inr ''goodbye''
      \<and> line_marshal ''tea'' = Inr ''tea''"
    by code_simp
  have w: "?W = (fst ?W, fst (snd ?W), snd (snd ?W))" and v: "?V = (fst ?V, fst (snd ?V), snd (snd ?V))"
    and u: "?U = (fst ?U, fst (snd ?U), snd (snd ?U))"
    by simp_all
  from conjunct1 [OF Write_atomic [OF w]] ev
  have A: "file_at (snd (snd ?W)) [''db'', ''users'', ''John.json''] = Some ''hello''" by simp
  from conjunct1 [OF conjunct2 [OF Write_atomic [OF v]]] ev
  have B: "file_at (snd (snd ?V)) [''db'', ''users'', ''John.json''] = Some (''goodbye'' @ [newline])"
    by simp
  from conjunct1 [OF conjunct2 [OF Write_atomic [OF u]]] ev
  have C: "file_at (snd (snd ?U)) [''db'', ''shop'', ''orders'', ''o1.json''] = Some (''tea'' @ [newline])"
    by simp
  from A B C ev show ?thesis by simp
qed

subsection \<open>Write, then Read\<close>







subsection \<open>Initialisation\<close>

lemma Mkdir_then_Stat:
  assumes "resolve fs name = Inr p" and "lookup fs p = None"
  shows "os_Stat (store p (Dir True) fs) name = Inr ModeDir"
proof -
  have "resolve (store p (Dir True) fs) name = Inr p"
  proof (rule resolve_dirs_kept [of fs])
    show "resolve fs name = Inr p" by (rule assms(1))
    show "cwd (store p (Dir True) fs) = cwd fs" by simp
    fix k x
    assume "lookup fs k = Some (Dir x)"
    with assms(2) show "lookup (store p (Dir True) fs) k = Some (Dir x)"
      by (auto simp: lookup_store)
  qed
  then show ?thesis by (simp add: os_Stat_def lookup_store)
qed

text \<open>
  C8. \<open>New\<close> stores the cleaned form of the root path, which has no two separators in
  a row, and starts with an empty lock registry. When the cleaned path exists,
  initialisation succeeds and the file system is unchanged. When it is absent (the
  path resolves, so the directory above it is there, and no node is at its place), the
  directory is created: initialisation succeeds, the file system is the old one with
  that one directory added, and the path then names a directory. The creation is a
  single \<open>os.Mkdir\<close> on the cleaned path, of one level: at most one node is ever new,
  and when the path does not resolve (a directory above it is missing) initialisation
  fails with the error of \<open>mkdir\<close> and nothing is created.
\<close>

theorem New_initialises:
  assumes "New dir0 options fs = (d, res, fs')"
  shows "dir d = filepath_Clean dir0
       \<and> no_double_separator (dir d)
       \<and> mutexes d = []
       \<and> (\<forall>fi. os_Stat fs (filepath_Clean dir0) = Inr fi \<longrightarrow> res = None \<and> fs' = fs)
       \<and> (\<forall>err. os_Stat fs (filepath_Clean dir0) = Inl err \<longrightarrow>
             (res, fs') = os_Mkdir fs (filepath_Clean dir0))
       \<and> (\<forall>p. lookup fs' p \<noteq> lookup fs p \<longrightarrow>
             res = None \<and> resolve fs (filepath_Clean dir0) = Inr p
             \<and> lookup fs p = None \<and> lookup fs' p = Some (Dir True))
       \<and> (\<forall>p. resolve fs (filepath_Clean dir0) = Inr p \<longrightarrow> lookup fs p = None \<longrightarrow>
             res = None \<and> fs' = store p (Dir True) fs
             \<and> lookup fs' p = Some (Dir True)
             \<and> os_Stat fs' (filepath_Clean dir0) = Inr ModeDir)
       \<and> (\<forall>e. resolve fs (filepath_Clean dir0) = Inl e \<longrightarrow>
             res = Some (PathError ''mkdir'' (filepath_Clean dir0) e) \<and> fs' = fs)"
proof -
  let ?dir = "filepath_Clean dir0"
  have 1: "dir d = ?dir" and 3: "mutexes d = []"
    using assms by (auto simp: New_def Let_def emit_def split: sum.splits prod.splits)
  have 2: "no_double_separator (dir d)" unfolding 1 by (rule filepath_Clean_no_double)
  have 4: "\<forall>fi. os_Stat fs ?dir = Inr fi \<longrightarrow> res = None \<and> fs' = fs"
    using assms by (auto simp: New_def Let_def split: sum.splits prod.splits)
  have 5: "\<forall>err. os_Stat fs ?dir = Inl err \<longrightarrow> (res, fs') = os_Mkdir fs ?dir"
    using assms by (auto simp: New_def Let_def split: sum.splits prod.splits)
  have 6: "\<forall>p. lookup fs' p \<noteq> lookup fs p \<longrightarrow>
             res = None \<and> resolve fs ?dir = Inr p \<and> lookup fs p = None \<and> lookup fs' p = Some (Dir True)"
  proof (cases "os_Stat fs ?dir")
    case (Inr fi)
    with 4 show ?thesis by auto
  next
    case (Inl err)
    with 5 have "os_Mkdir fs ?dir = (res, fs')" by simp
    from Mkdir_cases [OF this] show ?thesis
      by (auto simp: lookup_store trim_separators_Clean split: if_splits)
  qed
  have 7: "\<forall>p. resolve fs ?dir = Inr p \<longrightarrow> lookup fs p = None \<longrightarrow>
             res = None \<and> fs' = store p (Dir True) fs \<and> lookup fs' p = Some (Dir True)
             \<and> os_Stat fs' ?dir = Inr ModeDir"
  proof (intro allI impI)
    fix p
    assume r: "resolve fs ?dir = Inr p" and l: "lookup fs p = None"
    then have "os_Stat fs ?dir = Inl (PathError ''stat'' ?dir ENOENT)" by (simp add: os_Stat_def)
    with 5 have "(res, fs') = os_Mkdir fs ?dir" by blast
    moreover have "os_Mkdir fs ?dir = (None, store p (Dir True) fs)"
      by (rule Mkdir_creates) (simp_all add: trim_separators_Clean r l)
    ultimately have "res = None" "fs' = store p (Dir True) fs" by simp_all
    with Mkdir_then_Stat [OF r l]
    show "res = None \<and> fs' = store p (Dir True) fs \<and> lookup fs' p = Some (Dir True)
             \<and> os_Stat fs' ?dir = Inr ModeDir"
      by (simp add: lookup_store)
  qed
  have 8: "\<forall>e. resolve fs ?dir = Inl e \<longrightarrow> res = Some (PathError ''mkdir'' ?dir e) \<and> fs' = fs"
  proof (intro allI impI)
    fix e
    assume r: "resolve fs ?dir = Inl e"
    then have "os_Stat fs ?dir = Inl (PathError ''stat'' ?dir e)" by (simp add: os_Stat_def)
    with 5 have "(res, fs') = os_Mkdir fs ?dir" by blast
    moreover have "os_Mkdir fs ?dir = (Some (PathError ''mkdir'' ?dir e), fs)"
      using r by (simp add: os_Mkdir_def trim_separators_Clean)
    ultimately show "res = Some (PathError ''mkdir'' ?dir e) \<and> fs' = fs" by simp
  qed
  from 1 2 3 4 5 6 7 8 show ?thesis by (intro conjI)
qed

theorem New_initialises_witness:
  "dir (fst (New ''.//db/'' None empty_db)) = ''db''
   \<and> fst (snd (New ''.//db/'' None empty_db)) = None
   \<and> snd (snd (New ''.//db/'' None empty_db)) = empty_db
   \<and> fst (snd (New ''./data/'' None empty_db)) = None
   \<and> snd (snd (New ''./data/'' None empty_db)) = store [''data''] (Dir True) empty_db
   \<and> os_Stat (snd (snd (New ''./data/'' None empty_db))) ''data'' = Inr ModeDir
   \<and> fst (snd (New ''data//x'' None empty_db)) = Some (PathError ''mkdir'' ''data/x'' ENOENT)
   \<and> snd (snd (New ''data//x'' None empty_db)) = empty_db"
proof -
  have ev: "filepath_Clean ''.//db/'' = ''db'' \<and> os_Stat empty_db ''db'' = Inr ModeDir
      \<and> filepath_Clean ''./data/'' = ''data''
      \<and> resolve empty_db ''data'' = Inr [''data''] \<and> lookup empty_db [''data''] = None
      \<and> filepath_Clean ''data//x'' = ''data/x''
      \<and> resolve empty_db ''data/x'' = Inl ENOENT"
    by code_simp
  have a: "New ''.//db/'' None empty_db
     = (fst (New ''.//db/'' None empty_db), fst (snd (New ''.//db/'' None empty_db)),
        snd (snd (New ''.//db/'' None empty_db)))" by simp
  have b: "New ''./data/'' None empty_db
     = (fst (New ''./data/'' None empty_db), fst (snd (New ''./data/'' None empty_db)),
        snd (snd (New ''./data/'' None empty_db)))" by simp
  have c: "New ''data//x'' None empty_db
     = (fst (New ''data//x'' None empty_db), fst (snd (New ''data//x'' None empty_db)),
        snd (snd (New ''data//x'' None empty_db)))" by simp
  from ev have c1: "filepath_Clean ''.//db/'' = ''db''" and s1: "os_Stat empty_db ''db'' = Inr ModeDir"
    and c2: "filepath_Clean ''./data/'' = ''data''"
    and r2: "resolve empty_db ''data'' = Inr [''data'']" and l2: "lookup empty_db [''data''] = None"
    and c3: "filepath_Clean ''data//x'' = ''data/x''" and r3: "resolve empty_db ''data/x'' = Inl ENOENT"
    by blast+
  from New_initialises [OF a, unfolded c1] s1
  have A: "dir (fst (New ''.//db/'' None empty_db)) = ''db''
     \<and> fst (snd (New ''.//db/'' None empty_db)) = None
     \<and> snd (snd (New ''.//db/'' None empty_db)) = empty_db" by blast
  from New_initialises [OF b, unfolded c2] r2 l2
  have B: "fst (snd (New ''./data/'' None empty_db)) = None
     \<and> snd (snd (New ''./data/'' None empty_db)) = store [''data''] (Dir True) empty_db
     \<and> os_Stat (snd (snd (New ''./data/'' None empty_db))) ''data'' = Inr ModeDir" by blast
  from New_initialises [OF c, unfolded c3] r3
  have C: "fst (snd (New ''data//x'' None empty_db)) = Some (PathError ''mkdir'' ''data/x'' ENOENT)
     \<and> snd (snd (New ''data//x'' None empty_db)) = empty_db" by blast
  from A B C show ?thesis by blast
qed

end
